theory Spec2Isabelle
  imports Complex_Main
begin

section \<open>Exceptions, the outside world and sequencing\<close>

text \<open>
  The script \<^verbatim>\<open>run_el_maintenance.py\<close> drives an electrolyser over Modbus. Every
  function of it is embedded as a function from the state of the outside world to a
  result and the new state. A raised exception is the \<open>Inl\<close> result.

  \<^item> \<open>exn\<close>: the three exception classes of the script and the built-in ones that its
    code can raise. \<open>SystemExit\<close> is raised by \<^verbatim>\<open>sys.exit\<close>; it is the only one that is
    not a subclass of \<^verbatim>\<open>Exception\<close>.
  \<^item> \<open>event\<close>: one entry per effect, in the order of execution: text printed, a register
    read with the answer the client returned, a register write, a sleep, a line read from
    standard input.
  \<^item> \<open>world\<close>: the clock (\<^verbatim>\<open>time.time()\<close>, in seconds; \<^verbatim>\<open>time.sleep\<close> is what
    advances it), the lines still to come on standard input (an exhausted input raises
    \<^verbatim>\<open>EOFError\<close>, as \<^verbatim>\<open>input()\<close> does; lines are ASCII text), and the events so far.
  \<^item> \<open>modbus_client\<close>: the device behind the pyModbusTCP client. What a register holds
    is decided by the device, and may depend on everything that happened before (writes,
    elapsed time, earlier reads), so each answer is a function of the events so far.
    \<open>None\<close> is the client's answer when the request failed.
\<close>

datatype exn =
    MaintenanceModeException string
  | WaterPipeException string
  | HighElectrolyteLevelException string
  | TypeError string
  | IndexError string
  | ValueError string
  | UnicodeDecodeError string
  | EOFError string
  | SystemExit string

datatype pyfloat = Finite rat | PosInf | NegInf | NaN

datatype event =
    Print string
  | PrintPressureBounds pyfloat pyfloat pyfloat
  | ReadInput nat nat "nat list option"
  | ReadHolding nat nat "nat list option"
  | WriteSingle nat nat
  | Sleep int
  | Input string

record world =
  clock :: int
  stdin :: "string list"
  trace :: "event list"

record modbus_client =
  input_registers :: "event list \<Rightarrow> nat \<Rightarrow> nat \<Rightarrow> nat list option"
  holding_registers :: "event list \<Rightarrow> nat \<Rightarrow> nat \<Rightarrow> nat list option"
  last_error_as_txt :: "event list \<Rightarrow> string"
  last_except_as_txt :: "event list \<Rightarrow> string"

type_synonym 'a io = "world \<Rightarrow> (exn + 'a) \<times> world"

definition io_return :: "'a \<Rightarrow> 'a io" where
  "io_return x = (\<lambda>w. (Inr x, w))"

definition io_raise :: "exn \<Rightarrow> 'a io" where
  "io_raise e = (\<lambda>w. (Inl e, w))"

definition io_bind :: "'a io \<Rightarrow> ('a \<Rightarrow> 'b io) \<Rightarrow> 'b io" where
  "io_bind m f = (\<lambda>w. case m w of (Inl e, w') \<Rightarrow> (Inl e, w') | (Inr x, w') \<Rightarrow> f x w')"

definition io_seq :: "unit io \<Rightarrow> 'b io \<Rightarrow> 'b io" where
  "io_seq m n = io_bind m (\<lambda>_. n)"

text \<open>A block of statements, run in order until one raises.\<close>

fun io_block :: "unit io list \<Rightarrow> unit io" where
  "io_block [] = io_return ()"
| "io_block (m # ms) = io_seq m (io_block ms)"

definition emit :: "event \<Rightarrow> unit io" where
  "emit e = (\<lambda>w. (Inr (), w\<lparr>trace := trace w @ [e]\<rparr>))"

definition print :: "string \<Rightarrow> unit io" where
  "print text = emit (Print (text @ ''\<newline>''))"

subsection \<open>Constants of the script\<close>

definition DRAINING_TIMEOUT :: int where "DRAINING_TIMEOUT = 300 * 2"
definition REFILLING_TIMEOUT :: int where "REFILLING_TIMEOUT = 300"
definition REFILLING_STATE_CHECK_TIMEOUT :: int where "REFILLING_STATE_CHECK_TIMEOUT = 5"
definition ELECTROLYTE_PRESENCE_CHECK_TIMEOUT :: int where
  "ELECTROLYTE_PRESENCE_CHECK_TIMEOUT = 10"
definition REGISTER_WRITE_TIMEOUT :: int where "REGISTER_WRITE_TIMEOUT = 2"
definition MAX_WATER_PIPE_CONNECT_ATTEMPTS :: nat where "MAX_WATER_PIPE_CONNECT_ATTEMPTS = 5"
definition INPUT_CONFIRMATION :: string where "INPUT_CONFIRMATION = ''YES''"

subsection \<open>Enumerations\<close>

datatype ElectrolyteLevel = EMPTY | LOW | MEDIUM | HIGH | VERY_HIGH

fun level_value :: "ElectrolyteLevel \<Rightarrow> nat" where
  "level_value EMPTY = 0"
| "level_value LOW = 1"
| "level_value MEDIUM = 2"
| "level_value HIGH = 3"
| "level_value VERY_HIGH = 4"

fun level_name :: "ElectrolyteLevel \<Rightarrow> string" where
  "level_name EMPTY = ''EMPTY''"
| "level_name LOW = ''LOW''"
| "level_name MEDIUM = ''MEDIUM''"
| "level_name HIGH = ''HIGH''"
| "level_name VERY_HIGH = ''VERY_HIGH''"

text \<open>Decimal digits of a natural number, as \<^verbatim>\<open>str(n)\<close> prints them.\<close>

fun digit_char :: "nat \<Rightarrow> char" where
  "digit_char n = (''0123456789abcdef'' ! n)"

fun str_nat :: "nat \<Rightarrow> string" where
  "str_nat n = (if n < 10 then [digit_char n] else str_nat (n div 10) @ [digit_char (n mod 10)])"

declare str_nat.simps [simp del]

definition str_int :: "int \<Rightarrow> string" where
  "str_int i = (if i < 0 then [CHR 0x2D] @ str_nat (nat (- i)) else str_nat (nat i))"

text \<open>
  \<^verbatim>\<open>ElectrolyteLevel(n)\<close>: the member with value \<open>n\<close>; the enumeration has no
  \<^verbatim>\<open>_missing_\<close>, so any other value raises \<^verbatim>\<open>ValueError\<close>.
\<close>

definition ElectrolyteLevel_call :: "nat \<Rightarrow> exn + ElectrolyteLevel" where
  "ElectrolyteLevel_call n =
     (if n = 0 then Inr EMPTY
      else if n = 1 then Inr LOW
      else if n = 2 then Inr MEDIUM
      else if n = 3 then Inr HIGH
      else if n = 4 then Inr VERY_HIGH
      else Inl (ValueError (str_nat n @ '' is not a valid ElectrolyteLevel'')))"

datatype Holdings =
    H_MAINTENANCE
  | H_FLUSHING
  | H_REFILLING_MINWATERPPESSURE_BAR
  | H_REFILLING_MAXWATERPPESSURE_BAR
  | H_REFILLING_MIXINGTIME_MS

fun holding_address :: "Holdings \<Rightarrow> nat" where
  "holding_address H_MAINTENANCE = 1013"
| "holding_address H_FLUSHING = 1015"
| "holding_address H_REFILLING_MINWATERPPESSURE_BAR = 4400"
| "holding_address H_REFILLING_MAXWATERPPESSURE_BAR = 4402"
| "holding_address H_REFILLING_MIXINGTIME_MS = 4418"

datatype Inputs =
    DEVICE_MODEL
  | WARNINGS
  | ERRORS
  | STATE
  | REFILLING_STATE
  | LSH102B_IN
  | LSHH102A_IN
  | LSL102D_IN
  | LSM102C_IN
  | PT105_IN_BAR

fun input_address :: "Inputs \<Rightarrow> nat" where
  "input_address DEVICE_MODEL = 0"
| "input_address WARNINGS = 768"
| "input_address ERRORS = 832"
| "input_address STATE = 1200"
| "input_address REFILLING_STATE = 1201"
| "input_address LSH102B_IN = 7000"
| "input_address LSHH102A_IN = 7001"
| "input_address LSL102D_IN = 7002"
| "input_address LSM102C_IN = 7003"
| "input_address PT105_IN_BAR = 7516"

subsection \<open>Console colours\<close>

definition CYAN :: string where "CYAN = CHR 0x1B # ''[96m''"
definition GREEN :: string where "GREEN = CHR 0x1B # ''[32m''"
definition RED :: string where "RED = CHR 0x1B # ''[91m''"
definition YELLOW :: string where "YELLOW = CHR 0x1B # ''[33m''"
definition END :: string where "END = CHR 0x1B # ''[0m''"

definition text_color :: "string \<Rightarrow> string \<Rightarrow> string" where
  "text_color text color = color @ text @ END"

definition print_cyan :: "string \<Rightarrow> unit io" where
  "print_cyan text = print (text_color text CYAN)"

definition print_green :: "string \<Rightarrow> unit io" where
  "print_green text = print (text_color text GREEN)"

definition print_red :: "string \<Rightarrow> unit io" where
  "print_red text = print (text_color text RED)"

definition print_yellow :: "string \<Rightarrow> unit io" where
  "print_yellow text = print (text_color text YELLOW)"

subsection \<open>Register access\<close>

text \<open>
  pyModbusTCP answers a read with the list of exactly \<open>reg_nb\<close> 16-bit words, or with
  \<^verbatim>\<open>None\<close> when the request failed; any other answer of the device is a failed
  request.
\<close>

definition well_formed_answer :: "nat \<Rightarrow> nat list option \<Rightarrow> nat list option" where
  "well_formed_answer count r =
     (case r of
        None \<Rightarrow> None
      | Some ws \<Rightarrow> if length ws = count \<and> list_all (\<lambda>x. x < 65536) ws then Some ws else None)"

definition read_input_registers :: "modbus_client \<Rightarrow> nat \<Rightarrow> nat \<Rightarrow> (nat list option) io" where
  "read_input_registers mc address count = (\<lambda>w.
     let r = well_formed_answer count (input_registers mc (trace w) address count)
     in (Inr r, w\<lparr>trace := trace w @ [ReadInput address count r]\<rparr>))"

definition read_holding_registers :: "modbus_client \<Rightarrow> nat \<Rightarrow> nat \<Rightarrow> (nat list option) io" where
  "read_holding_registers mc address count = (\<lambda>w.
     let r = well_formed_answer count (holding_registers mc (trace w) address count)
     in (Inr r, w\<lparr>trace := trace w @ [ReadHolding address count r]\<rparr>))"

definition sleep :: "int \<Rightarrow> unit io" where
  "sleep s = (\<lambda>w. (Inr (), w\<lparr>clock := clock w + s, trace := trace w @ [Sleep s]\<rparr>))"

definition write_single_register :: "modbus_client \<Rightarrow> nat \<Rightarrow> nat \<Rightarrow> unit io" where
  "write_single_register mc address val =
     io_seq (emit (WriteSingle address val)) (sleep REGISTER_WRITE_TIMEOUT)"

text \<open>\<^verbatim>\<open>answer[0]\<close>: subscripting \<^verbatim>\<open>None\<close> raises \<^verbatim>\<open>TypeError\<close>.\<close>

definition subscript0 :: "nat list option \<Rightarrow> nat io" where
  "subscript0 r =
     (case r of
        None \<Rightarrow> io_raise (TypeError (CHR 0x27 # ''NoneType'' @ CHR 0x27 # '' object is not subscriptable''))
      | Some [] \<Rightarrow> io_raise (IndexError ''list index out of range'')
      | Some (x # _) \<Rightarrow> io_return x)"

section \<open>Electrolyte level\<close>

definition read_switch :: "modbus_client \<Rightarrow> Inputs \<Rightarrow> bool io" where
  "read_switch mc reg =
     io_bind (read_input_registers mc (input_address reg) 1) (\<lambda>r.
     io_bind (subscript0 r) (\<lambda>x. io_return (x \<noteq> 0)))"

definition low_level_switch :: "modbus_client \<Rightarrow> bool io" where
  "low_level_switch mc = read_switch mc LSL102D_IN"

definition medium_level_switch :: "modbus_client \<Rightarrow> bool io" where
  "medium_level_switch mc = read_switch mc LSM102C_IN"

definition high_level_switch :: "modbus_client \<Rightarrow> bool io" where
  "high_level_switch mc = read_switch mc LSH102B_IN"

definition very_high_level_switch :: "modbus_client \<Rightarrow> bool io" where
  "very_high_level_switch mc = read_switch mc LSHH102A_IN"

text \<open>
  \<^verbatim>\<open>_search_top_switch\<close>: the first switch from the top that is enabled (or disabled),
  as its position counted from one; zero when there is none.
\<close>

definition search_top_switch :: "bool list \<Rightarrow> bool \<Rightarrow> nat" where
  "search_top_switch switches enabled =
     (case filter (\<lambda>(index, switch). switch = enabled) (enumerate 0 (rev switches)) of
        [] \<Rightarrow> 0
      | (index, switch) # _ \<Rightarrow> length switches - index)"

definition inconsistency_text :: "ElectrolyteLevel \<Rightarrow> ElectrolyteLevel \<Rightarrow> string" where
  "inconsistency_text electrolyte_level top_disabled_level =
     ''Detected enabled '' @ level_name electrolyte_level @ '' level switch while at''
     @ '' least one switch below ('' @ level_name top_disabled_level @ '' level) is''
     @ '' disabled. Please contact Enapter customer support.''"

text \<open>The four switches in the order the script lists them: low, medium, high, very high.\<close>

definition read_switches :: "modbus_client \<Rightarrow> (bool list) io" where
  "read_switches mc =
     io_bind (low_level_switch mc) (\<lambda>low.
     io_bind (medium_level_switch mc) (\<lambda>medium.
     io_bind (high_level_switch mc) (\<lambda>high.
     io_bind (very_high_level_switch mc) (\<lambda>very_high.
       io_return [low, medium, high, very_high]))))"

text \<open>The part of \<^verbatim>\<open>_electrolyte_level\<close> between the reads and the log line.\<close>

definition level_of_switches :: "bool list \<Rightarrow> exn + ElectrolyteLevel" where
  "level_of_switches switches =
     (case ElectrolyteLevel_call (search_top_switch switches True) of
        Inl e \<Rightarrow> Inl e
      | Inr electrolyte_level \<Rightarrow>
          (let switches_below_max = take (level_value electrolyte_level) switches
           in if \<not> list_all id switches_below_max then
                (case ElectrolyteLevel_call (search_top_switch switches_below_max False) of
                   Inl e \<Rightarrow> Inl e
                 | Inr top_disabled_level \<Rightarrow>
                     Inl (MaintenanceModeException
                            (inconsistency_text electrolyte_level top_disabled_level)))
              else Inr electrolyte_level))"

definition io_lift :: "exn + 'a \<Rightarrow> 'a io" where
  "io_lift r = (\<lambda>w. (r, w))"

definition electrolyte_level :: "modbus_client \<Rightarrow> bool \<Rightarrow> ElectrolyteLevel io" where
  "electrolyte_level mc logging =
     io_bind (read_switches mc) (\<lambda>switches.
     io_bind (io_lift (level_of_switches switches)) (\<lambda>electrolyte_level.
     io_seq (if logging
             then print_cyan (level_name electrolyte_level @ '' electrolyte level detected...'')
             else io_return ())
            (io_return electrolyte_level)))"

section \<open>States of the device\<close>

datatype DeviceModel = DM_UNKNOWN | EL21 | EL40 | ES40 | ES41

text \<open>\<^verbatim>\<open>DeviceModel(name)\<close>: the member whose value is the name, \<open>UNKNOWN\<close> otherwise.\<close>

definition DeviceModel_call :: "string \<Rightarrow> DeviceModel" where
  "DeviceModel_call v =
     (if v = ''UNKNOWN'' then DM_UNKNOWN
      else if v = ''EL21'' then EL21
      else if v = ''EL40'' then EL40
      else if v = ''ES40'' then ES40
      else if v = ''ES41'' then ES41
      else DM_UNKNOWN)"

datatype State =
    S_UNKNOWN
  | HALTED
  | MAINTENANCE_MODE
  | IDLE
  | STEADY
  | STAND_BY
  | CURVE
  | BLOWDOWN
  | RECOMBINER

definition State_call :: "nat \<Rightarrow> State" where
  "State_call v =
     (if v = 0 then HALTED
      else if v = 1 then MAINTENANCE_MODE
      else if v = 2 then IDLE
      else if v = 3 then STEADY
      else if v = 4 then STAND_BY
      else if v = 5 then CURVE
      else if v = 6 then BLOWDOWN
      else if v = 7 then RECOMBINER
      else S_UNKNOWN)"

fun state_name :: "State \<Rightarrow> string" where
  "state_name S_UNKNOWN = ''UNKNOWN''"
| "state_name HALTED = ''HALTED''"
| "state_name MAINTENANCE_MODE = ''MAINTENANCE_MODE''"
| "state_name IDLE = ''IDLE''"
| "state_name STEADY = ''STEADY''"
| "state_name STAND_BY = ''STAND_BY''"
| "state_name CURVE = ''CURVE''"
| "state_name BLOWDOWN = ''BLOWDOWN''"
| "state_name RECOMBINER = ''RECOMBINER''"

datatype RefillingState =
    R_UNKNOWN
  | R_NONE
  | R_HALT
  | R_IDLE
  | FILLING
  | DRAINING
  | MAINTENANCE
  | KOH_REFILLING
  | MAINTENANCE_REFILLING
  | KOH_REFILLING_FINISH
  | FINAL_REFILLING
  | DEMAND_REFILLING
  | WAIT_FLUSHING
  | FLUSHING
  | SERVICE_REFILLING

definition RefillingState_call :: "nat \<Rightarrow> RefillingState" where
  "RefillingState_call v =
     (if v = 0 then R_NONE
      else if v = 1 then R_HALT
      else if v = 2 then R_IDLE
      else if v = 3 then FILLING
      else if v = 4 then DRAINING
      else if v = 5 then MAINTENANCE
      else if v = 6 then KOH_REFILLING
      else if v = 7 then MAINTENANCE_REFILLING
      else if v = 8 then KOH_REFILLING_FINISH
      else if v = 9 then FINAL_REFILLING
      else if v = 10 then DEMAND_REFILLING
      else if v = 11 then WAIT_FLUSHING
      else if v = 12 then FLUSHING
      else if v = 13 then SERVICE_REFILLING
      else R_UNKNOWN)"

fun refilling_state_name :: "RefillingState \<Rightarrow> string" where
  "refilling_state_name R_UNKNOWN = ''UNKNOWN''"
| "refilling_state_name R_NONE = ''NONE''"
| "refilling_state_name R_HALT = ''HALT''"
| "refilling_state_name R_IDLE = ''IDLE''"
| "refilling_state_name FILLING = ''FILLING''"
| "refilling_state_name DRAINING = ''DRAINING''"
| "refilling_state_name MAINTENANCE = ''MAINTENANCE''"
| "refilling_state_name KOH_REFILLING = ''KOH_REFILLING''"
| "refilling_state_name MAINTENANCE_REFILLING = ''MAINTENANCE_REFILLING''"
| "refilling_state_name KOH_REFILLING_FINISH = ''KOH_REFILLING_FINISH''"
| "refilling_state_name FINAL_REFILLING = ''FINAL_REFILLING''"
| "refilling_state_name DEMAND_REFILLING = ''DEMAND_REFILLING''"
| "refilling_state_name WAIT_FLUSHING = ''WAIT_FLUSHING''"
| "refilling_state_name FLUSHING = ''FLUSHING''"
| "refilling_state_name SERVICE_REFILLING = ''SERVICE_REFILLING''"

section \<open>Events: errors and warnings\<close>

text \<open>
  The two event enumerations, as the list of their members (name, value) in the order
  of the source. Calling the enumeration with a value gives the member with that value;
  \<^verbatim>\<open>_missing_\<close> gives \<open>UNKNOWN\<close> for any other value.
\<close>

type_synonym event_enum = "(string \<times> int) list"

definition ElError :: event_enum where
  "ElError =
    [(''UNKNOWN'', -1), (''INTERNAL_ERROR'', 0x0FFF), (''FP_01'', 0x1F81),
     (''FP_02'', 0x1F82), (''FP_03'', 0x1F83), (''FP_06'', 0x1F86), (''FC_10'', 0x108A),
     (''FD_20'', 0x1114), (''FR_10'', 0x118A), (''FR_20'', 0x1194), (''FR_50'', 0x11B2),
     (''FR_51'', 0x11B3), (''FR_52'', 0x11B4), (''FR_40'', 0x11A8), (''FS_01'', 0x1201),
     (''FS_10'', 0x120A), (''FT_10'', 0x128A), (''ET_10'', 0x228A), (''EU_10'', 0x230A),
     (''FX_03'', 0x1403), (''FX_04'', 0x1404), (''FX_07'', 0x1407), (''FX_11'', 0x140B),
     (''FX_12'', 0x140C), (''FX_30'', 0x141E), (''FX_31'', 0x141F), (''FX_33'', 0x1421),
     (''FX_35'', 0x1423), (''FX_36'', 0x1424), (''FX_37'', 0x1425), (''FX_38'', 0x1426),
     (''FX_39'', 0x1427), (''FF_10'', 0x148A), (''FL_01'', 0x1501), (''FO_30'', 0x159E),
     (''EX_01'', 0x2401), (''FX_02'', 0x1402), (''FX_05'', 0x1405), (''FX_08'', 0x1408),
     (''FX_09'', 0x1409), (''FX_10'', 0x140A), (''FX_32'', 0x1420), (''FX_34'', 0x1422),
     (''FX_40'', 0x1428), (''FX_13'', 0x140D), (''FX_42'', 0x142A), (''FB_10'', 0x170A),
     (''FB_11'', 0x170B), (''FB_20'', 0x1714), (''FB_21'', 0x1715), (''FY_10'', 0x178A),
     (''FY_20'', 0x1794), (''FY_21'', 0x1795), (''FY_22'', 0x1796), (''FY_23'', 0x1797),
     (''FY_24'', 0x1798), (''FY_25'', 0x1799), (''FY_26'', 0x179A), (''FY_27'', 0x179B),
     (''FY_28'', 0x179C), (''FY_29'', 0x179D), (''FY_30'', 0x179E), (''FY_31'', 0x179F),
     (''FY_33'', 0x1721), (''FY_51'', 0x17B3), (''FY_52'', 0x17B4), (''FY_53'', 0x17B5),
     (''FY_54'', 0x17B6), (''FY_55'', 0x17B7), (''FY_56'', 0x17B8)]"

definition ElWarning :: event_enum where
  "ElWarning =
    [(''UNKNOWN'', -1), (''WP_04'', 0x3F84), (''WP_05'', 0x3F85), (''WR_10'', 0x318A),
     (''WR_20'', 0x3194), (''WR_21'', 0x3195), (''WR_22'', 0x3196), (''WR_51'', 0x31B3),
     (''WR_52'', 0x31B4), (''WR_53'', 0x31B5), (''WS_21'', 0x3215), (''WS_22'', 0x3216),
     (''WS_30'', 0x321E), (''WT_20'', 0x3294), (''WU_10'', 0x330A), (''WX_52'', 0x3434),
     (''WX_53'', 0x3435), (''WX_55'', 0x3437), (''WX_59'', 0x343B), (''WX_60'', 0x343C),
     (''WX_61'', 0x343D), (''WX_62'', 0x343E), (''WX_63'', 0x343F), (''WX_64'', 0x3440),
     (''WX_65'', 0x3441), (''WX_66'', 0x3442), (''WX_67'', 0x3443), (''WX_69'', 0x3445),
     (''WL_10'', 0x350A), (''WO_10'', 0x358A), (''WO_20'', 0x3594), (''WH_10'', 0x360A),
     (''WH_11'', 0x360B), (''WH_12'', 0x360C), (''WZ_10'', 0x368A), (''WT_21'', 0x3295),
     (''WX_50'', 0x3432), (''WX_51'', 0x3433), (''WX_54'', 0x3436), (''WX_56'', 0x3438),
     (''WX_57'', 0x3439), (''WR_23'', 0x3197), (''WR_54'', 0x31B6), (''WX_14'', 0x340E),
     (''WX_15'', 0x340F), (''WX_70'', 0x3446)]"

definition enum_call :: "event_enum \<Rightarrow> int \<Rightarrow> string \<times> int" where
  "enum_call members v =
     (case find (\<lambda>member. snd member = v) members of
        Some member \<Rightarrow> member
      | None \<Rightarrow> (''UNKNOWN'', -1))"

text \<open>The member of that name, as in \<^verbatim>\<open>ElWarning.WR_10\<close>.\<close>

definition member :: "event_enum \<Rightarrow> string \<Rightarrow> string \<times> int" where
  "member members name = (case map_of members name of Some v \<Rightarrow> (name, v) | None \<Rightarrow> (''UNKNOWN'', -1))"

text \<open>\<^verbatim>\<open>hex(value)\<close>.\<close>

fun hex_digits :: "nat \<Rightarrow> string" where
  "hex_digits n = (if n < 16 then [digit_char n] else hex_digits (n div 16) @ [digit_char (n mod 16)])"

declare hex_digits.simps [simp del]

definition hex :: "int \<Rightarrow> string" where
  "hex v = (if v < 0 then ''-0x'' @ hex_digits (nat (- v)) else ''0x'' @ hex_digits (nat v))"

definition format_event :: "string \<Rightarrow> int \<Rightarrow> string" where
  "format_event name val = name @ '' ('' @ hex val @ '')''"

definition format_warning :: "string \<times> int \<Rightarrow> string" where
  "format_warning warning = format_event (fst warning) (snd warning)"

text \<open>
  \<^verbatim>\<open>_decode_events\<close>: 33 registers, the first is the number of events. The slice
  \<^verbatim>\<open>raw_events_data[1:events_count + 1]\<close> stops at the end of the list.
\<close>

definition decode_events :: "modbus_client \<Rightarrow> Inputs \<Rightarrow> event_enum \<Rightarrow> (string list) io" where
  "decode_events mc register event_type =
     io_bind (read_input_registers mc (input_address register) 33) (\<lambda>answer.
     io_bind (subscript0 answer) (\<lambda>events_count.
       case answer of
         None \<Rightarrow> io_return []
       | Some raw_events_data \<Rightarrow>
           if events_count \<noteq> 0
           then io_return
                  (map (\<lambda>event. format_event (fst (enum_call event_type (int event))) (int event))
                       (drop 1 (take (events_count + 1) raw_events_data)))
           else io_return []))"

definition decode_warnings :: "modbus_client \<Rightarrow> (string list) io" where
  "decode_warnings mc = decode_events mc WARNINGS ElWarning"

definition decode_errors :: "modbus_client \<Rightarrow> (string list) io" where
  "decode_errors mc = decode_events mc ERRORS ElError"

text \<open>\<^verbatim>\<open>sep.join(items)\<close>.\<close>

fun join :: "string \<Rightarrow> string list \<Rightarrow> string" where
  "join sep [] = []"
| "join sep [x] = x"
| "join sep (x # y # ys) = x @ sep @ join sep (y # ys)"

definition check_refilling_warnings :: "modbus_client \<Rightarrow> unit io" where
  "check_refilling_warnings mc =
     io_seq (print ''Checking if any refilling warnings exist...'')
     (io_bind (decode_warnings mc) (\<lambda>active_warnings.
        if active_warnings \<noteq> [] then
          if list_ex (\<lambda>warning. warning \<in> set
                 [format_warning (member ElWarning ''WR_10''),
                  format_warning (member ElWarning ''WR_20''),
                  format_warning (member ElWarning ''WR_21''),
                  format_warning (member ElWarning ''WR_22'')]) active_warnings
          then io_raise (MaintenanceModeException
                 (''Seems like something went wrong while refilling, active''
                  @ '' warnings are: '' @ join '', '' active_warnings @ ''\<newline>Please''
                  @ '' contact Enapter customer support''))
          else print_yellow
                 (''Seems like there are no refilling issues, but other''
                  @ '' active warnings found: '' @ join '', '' active_warnings)
        else print ''No warnings found''))"

definition actual_state :: "modbus_client \<Rightarrow> State io" where
  "actual_state mc =
     io_bind (read_input_registers mc (input_address STATE) 1) (\<lambda>r.
     io_bind (subscript0 r) (\<lambda>v.
     io_seq (print_cyan (state_name (State_call v) @ '' system state detected...''))
            (io_return (State_call v))))"

definition actual_refilling_state :: "modbus_client \<Rightarrow> RefillingState io" where
  "actual_refilling_state mc =
     io_bind (read_input_registers mc (input_address REFILLING_STATE) 1) (\<lambda>r.
     io_bind (subscript0 r) (\<lambda>v. io_return (RefillingState_call v)))"

section \<open>32-bit values in two registers\<close>

text \<open>
  pyModbusTCP's \<^verbatim>\<open>utils.word_list_to_long\<close> (big endian, the default): one 32-bit value
  for every pair of words, the first word of a pair being the high one. Given \<^verbatim>\<open>None\<close>
  it raises \<^verbatim>\<open>TypeError\<close> at \<^verbatim>\<open>len(val_list)\<close>.
\<close>

fun pair_words :: "nat list \<Rightarrow> nat list" where
  "pair_words (hi # lo # ws) = (hi * 65536 + lo) # pair_words ws"
| "pair_words _ = []"

definition word_list_to_long :: "nat list option \<Rightarrow> (nat list) io" where
  "word_list_to_long val_list =
     (case val_list of
        None \<Rightarrow> io_raise (TypeError (''object of type '' @ CHR 0x27 # ''NoneType'' @ CHR 0x27
                                    # '' has no len()''))
      | Some ws \<Rightarrow> io_return (pair_words ws))"

text \<open>
  \<^verbatim>\<open>utils.decode_ieee\<close>: the IEEE 754 single-precision number with that bit pattern. Its
  value is exact in a Python float, so a finite one is a rational number here.
\<close>

definition decode_ieee :: "nat \<Rightarrow> pyfloat" where
  "decode_ieee val_int =
     (let sign = (val_int div 2 ^ 31) mod 2;
          exponent = (val_int div 2 ^ 23) mod 256;
          mantissa = val_int mod 2 ^ 23;
          s = (if sign = 1 then - 1 else 1 :: rat)
      in if exponent = 255 then
           (if mantissa = 0 then (if sign = 1 then NegInf else PosInf) else NaN)
         else if exponent = 0 then Finite (s * of_nat mantissa / 2 ^ 149)
         else if exponent \<ge> 150 then Finite (s * of_nat (2 ^ 23 + mantissa) * 2 ^ (exponent - 150))
         else Finite (s * of_nat (2 ^ 23 + mantissa) / 2 ^ (150 - exponent)))"

text \<open>\<^verbatim>\<open>a < b\<close> on Python floats: false whenever one of them is not a number.\<close>

fun float_less :: "pyfloat \<Rightarrow> pyfloat \<Rightarrow> bool" where
  "float_less NaN _ = False"
| "float_less _ NaN = False"
| "float_less (Finite a) (Finite b) = (a < b)"
| "float_less _ NegInf = False"
| "float_less PosInf _ = False"
| "float_less NegInf _ = True"
| "float_less _ PosInf = True"

definition subscript0_list :: "nat list \<Rightarrow> nat io" where
  "subscript0_list xs =
     (case xs of
        [] \<Rightarrow> io_raise (IndexError ''list index out of range'')
      | x # _ \<Rightarrow> io_return x)"

definition actual_water_inlet_pressure :: "modbus_client \<Rightarrow> pyfloat io" where
  "actual_water_inlet_pressure mc =
     io_bind (read_input_registers mc (input_address PT105_IN_BAR) 2) (\<lambda>r.
     io_bind (word_list_to_long r) (\<lambda>longs.
     io_bind (subscript0_list longs) (\<lambda>val_int. io_return (decode_ieee val_int))))"

definition actual_refilling_mixing_time :: "modbus_client \<Rightarrow> int io" where
  "actual_refilling_mixing_time mc =
     io_bind (read_holding_registers mc (holding_address H_REFILLING_MIXINGTIME_MS) 2) (\<lambda>r.
     io_bind (word_list_to_long r) (\<lambda>longs.
     io_bind (subscript0_list longs) (\<lambda>ms. io_return (int ms div 1000))))"

definition actual_refilling_min_water_pressure :: "modbus_client \<Rightarrow> pyfloat io" where
  "actual_refilling_min_water_pressure mc =
     io_bind (read_holding_registers mc (holding_address H_REFILLING_MINWATERPPESSURE_BAR) 2) (\<lambda>r.
     io_bind (word_list_to_long r) (\<lambda>longs.
     io_bind (subscript0_list longs) (\<lambda>val_int. io_return (decode_ieee val_int))))"

definition actual_refilling_max_water_pressure :: "modbus_client \<Rightarrow> pyfloat io" where
  "actual_refilling_max_water_pressure mc =
     io_bind (read_holding_registers mc (holding_address H_REFILLING_MAXWATERPPESSURE_BAR) 2) (\<lambda>r.
     io_bind (word_list_to_long r) (\<lambda>longs.
     io_bind (subscript0_list longs) (\<lambda>val_int. io_return (decode_ieee val_int))))"

section \<open>Writes and the operator\<close>

definition toggle_maintenance :: "modbus_client \<Rightarrow> bool \<Rightarrow> unit io" where
  "toggle_maintenance mc enable =
     write_single_register mc (holding_address H_MAINTENANCE) (if enable then 1 else 0)"

definition toggle_flushing :: "modbus_client \<Rightarrow> bool \<Rightarrow> unit io" where
  "toggle_flushing mc enable =
     write_single_register mc (holding_address H_FLUSHING) (if \<not> enable then 1 else 0)"

definition flushing_on :: "modbus_client \<Rightarrow> unit io" where
  "flushing_on mc =
     io_block
       [print ''Turning flushing on...'',
        toggle_flushing mc True,
        print ''Successfully turned flushing on'']"

text \<open>\<^verbatim>\<open>input()\<close> takes the next line of standard input; at its end it raises.\<close>

definition input_line :: "string io" where
  "input_line = (\<lambda>w.
     case stdin w of
       [] \<Rightarrow> (Inl (EOFError ''EOF when reading a line''), w)
     | line # rest \<Rightarrow> (Inr line, w\<lparr>stdin := rest, trace := trace w @ [Input line]\<rparr>))"

definition upper_char :: "char \<Rightarrow> char" where
  "upper_char c =
     (let n = (of_char c :: nat) in if 97 \<le> n \<and> n \<le> 122 then char_of (n - 32) else c)"

definition upper :: "string \<Rightarrow> string" where
  "upper s = map upper_char s"

text \<open>
  The loop of \<^verbatim>\<open>_wait_confirmation\<close>: any line but the confirmation is answered with
  \<^verbatim>\<open>Wrong confirmation\<close> and the next line is read.
\<close>

function wait_confirmation_loop :: "unit io" where
  "wait_confirmation_loop w =
     (case input_line w of
        (Inl e, w') \<Rightarrow> (Inl e, w')
      | (Inr line, w') \<Rightarrow>
          if upper line \<noteq> INPUT_CONFIRMATION
          then wait_confirmation_loop (snd (print_yellow ''Wrong confirmation'' w'))
          else (Inr (), w'))"
  by pat_completeness auto
termination
  by (relation "measure (\<lambda>w. length (stdin w))")
     (auto simp: input_line_def print_yellow_def print_def emit_def split: list.splits)

declare wait_confirmation_loop.simps [simp del]

definition wait_confirmation :: "string \<Rightarrow> unit io" where
  "wait_confirmation prompt = io_seq (print prompt) wait_confirmation_loop"

definition maintenance_on :: "modbus_client \<Rightarrow> State \<Rightarrow> unit io" where
  "maintenance_on mc initial_state =
     (if initial_state = IDLE then
        io_block
          [print ''Turning Maintenance mode on...'',
           toggle_maintenance mc True,
           io_bind (actual_state mc) (\<lambda>state.
             if state \<noteq> MAINTENANCE_MODE
             then io_raise (MaintenanceModeException
                    (''Got state '' @ state_name state @ '' instead of ''
                     @ state_name MAINTENANCE_MODE @ '', please contact Enapter ''
                     @ ''customer support''))
             else io_return ()),
           print ''Successfully turned Maintenance mode on'']
      else print ''Maintenance mode is already on'')"

definition maintenance_off :: "modbus_client \<Rightarrow> unit io" where
  "maintenance_off mc =
     io_block
       [print ''Turning Maintenance mode off...'',
        toggle_maintenance mc False,
        io_bind (actual_state mc) (\<lambda>state.
          if state \<noteq> IDLE
          then io_raise (MaintenanceModeException
                 (''Got state '' @ state_name state @ '' instead of '' @ state_name IDLE
                  @ '', please contact Enapter customer support''))
          else io_return ()),
        print ''Successfully turned Maintenance mode off'']"

definition check_refilling_state :: "modbus_client \<Rightarrow> RefillingState \<Rightarrow> unit io" where
  "check_refilling_state mc expected_refilling_state =
     io_seq (print ''Checking refilling state...'')
     (io_bind (actual_refilling_state mc) (\<lambda>actual_refilling_state.
        if actual_refilling_state \<noteq> expected_refilling_state
        then io_raise (MaintenanceModeException
               (''Wrong refilling state detected, expected ''
                @ refilling_state_name expected_refilling_state @ '', actual ''
                @ refilling_state_name actual_refilling_state
                @ ''. Please contact Enapter customer support.''))
        else print_cyan (''Detected expected '' @ refilling_state_name actual_refilling_state
                         @ '' refilling state\<newline>'')))"

section \<open>Exception handlers\<close>

fun is_HighElectrolyteLevelException :: "exn \<Rightarrow> bool" where
  "is_HighElectrolyteLevelException (HighElectrolyteLevelException _) = True"
| "is_HighElectrolyteLevelException _ = False"

fun is_WaterPipeException :: "exn \<Rightarrow> bool" where
  "is_WaterPipeException (WaterPipeException _) = True"
| "is_WaterPipeException _ = False"

text \<open>\<^verbatim>\<open>except Exception\<close> catches everything the script can raise but \<^verbatim>\<open>SystemExit\<close>.\<close>

fun is_Exception :: "exn \<Rightarrow> bool" where
  "is_Exception (SystemExit _) = False"
| "is_Exception _ = True"

fun exn_str :: "exn \<Rightarrow> string" where
  "exn_str (MaintenanceModeException m) = m"
| "exn_str (WaterPipeException m) = m"
| "exn_str (HighElectrolyteLevelException m) = m"
| "exn_str (TypeError m) = m"
| "exn_str (IndexError m) = m"
| "exn_str (ValueError m) = m"
| "exn_str (UnicodeDecodeError m) = m"
| "exn_str (EOFError m) = m"
| "exn_str (SystemExit m) = m"

text \<open>
  \<^verbatim>\<open>try: body  except C: handler  else: orelse  finally: final\<close>. The handler runs for
  an exception of the class raised by the body; \<open>orelse\<close> runs when the body raised
  nothing, and what it raises is not handled; \<open>final\<close> runs in every case, and what it
  raises replaces the pending exception.
\<close>

definition try_except :: "'a io \<Rightarrow> (exn \<Rightarrow> bool) \<Rightarrow> (exn \<Rightarrow> 'a io) \<Rightarrow> 'a io" where
  "try_except body caught handler = (\<lambda>w.
     case body w of
       (Inl e, w') \<Rightarrow> if caught e then handler e w' else (Inl e, w')
     | (Inr x, w') \<Rightarrow> (Inr x, w'))"

definition try_except_else ::
  "unit io \<Rightarrow> (exn \<Rightarrow> bool) \<Rightarrow> (exn \<Rightarrow> 'a io) \<Rightarrow> 'a io \<Rightarrow> 'a io" where
  "try_except_else body caught handler orelse = (\<lambda>w.
     case body w of
       (Inl e, w') \<Rightarrow> if caught e then handler e w' else (Inl e, w')
     | (Inr _, w') \<Rightarrow> orelse w')"

definition try_finally :: "'a io \<Rightarrow> unit io \<Rightarrow> 'a io" where
  "try_finally body final = (\<lambda>w.
     case body w of
       (r, w') \<Rightarrow> (case final w' of (Inl e, w'') \<Rightarrow> (Inl e, w'') | (Inr _, w'') \<Rightarrow> (r, w'')))"

section \<open>Waiting\<close>

lemma clock_read_switch: "clock (snd (read_switch mc reg w)) = clock w"
  by (simp add: read_switch_def io_bind_def io_return_def io_raise_def read_input_registers_def
        subscript0_def Let_def split: option.splits list.splits)

lemma clock_read_switches: "clock (snd (read_switches mc w)) = clock w"
proof -
  have step: "\<And>reg f w. (\<And>x w'. clock (snd (f x w')) = clock w') \<Longrightarrow>
      clock (snd (io_bind (read_switch mc reg) f w)) = clock w"
    using clock_read_switch
    by (auto simp: io_bind_def split: prod.splits sum.splits) (metis snd_conv)+
  show ?thesis
    unfolding read_switches_def low_level_switch_def medium_level_switch_def
      high_level_switch_def very_high_level_switch_def
    by (intro step) (simp add: io_return_def)
qed

lemma clock_electrolyte_level: "clock (snd (electrolyte_level mc logging w)) = clock w"
proof -
  obtain r w' where r: "read_switches mc w = (r, w')" by (cases "read_switches mc w")
  then have "clock w' = clock w" using clock_read_switches [of mc w] by simp
  with r show ?thesis
    by (auto simp: electrolyte_level_def io_bind_def io_seq_def io_lift_def io_return_def
          print_cyan_def print_def emit_def split: sum.splits)
qed

lemma clock_actual_refilling_state: "clock (snd (actual_refilling_state mc w)) = clock w"
  by (simp add: actual_refilling_state_def io_bind_def io_return_def io_raise_def
        read_input_registers_def subscript0_def Let_def split: option.splits list.splits)

text \<open>
  The loop of \<^verbatim>\<open>_wait_electrolyte_level\<close>, from the test of its condition. The clock goes
  on by the sleep at the end of each round, so the deadline is reached.
\<close>

function wait_electrolyte_level_loop ::
  "modbus_client \<Rightarrow> ElectrolyteLevel \<Rightarrow> int \<Rightarrow> bool \<Rightarrow> int \<Rightarrow> unit io" where
  "wait_electrolyte_level_loop mc expected_level timeout refilling wait_until w =
     (if clock w < wait_until then
        (case electrolyte_level mc True w of
           (Inl e, w') \<Rightarrow> (Inl e, w')
         | (Inr level, w') \<Rightarrow>
             if level = expected_level then (Inr (), w')
             else if refilling \<and> level_value level > level_value expected_level
             then (Inl (HighElectrolyteLevelException
                     (''Higher electrolyte level detected. Expected ''
                      @ level_name expected_level @ '', actual '' @ level_name level
                      @ ''. If this happened during automatic refilling, please contact''
                      @ '' Enapter customer support.'')), w')
             else wait_electrolyte_level_loop mc expected_level timeout refilling wait_until
                    (snd (sleep ELECTROLYTE_PRESENCE_CHECK_TIMEOUT w')))
      else (Inl (MaintenanceModeException
              (''Failed to wait for '' @ level_name expected_level @ '' level during ''
               @ str_int (timeout div 60) @ '' minutes.'')), w))"
  by pat_completeness auto
termination
proof (relation "measure (\<lambda>(mc, expected_level, timeout, refilling, wait_until, w).
                   nat (wait_until - clock w))", goal_cases)
  case 1
  show ?case by simp
next
  case (2 mc expected_level timeout refilling wait_until w x w' level)
  have "clock w' = clock w"
    using clock_electrolyte_level [of mc True w] 2(2) by (metis snd_conv)
  with 2(1) show ?case
    by (simp add: sleep_def ELECTROLYTE_PRESENCE_CHECK_TIMEOUT_def)
qed

declare wait_electrolyte_level_loop.simps [simp del]

definition wait_electrolyte_level ::
  "modbus_client \<Rightarrow> ElectrolyteLevel \<Rightarrow> int \<Rightarrow> bool \<Rightarrow> unit io" where
  "wait_electrolyte_level mc expected_level timeout refilling = (\<lambda>w.
     wait_electrolyte_level_loop mc expected_level timeout refilling (clock w + timeout) w)"

function wait_refilling_state_loop ::
  "modbus_client \<Rightarrow> RefillingState \<Rightarrow> int \<Rightarrow> int \<Rightarrow> unit io" where
  "wait_refilling_state_loop mc expected_state timeout wait_until w =
     (if clock w < wait_until then
        (case actual_refilling_state mc w of
           (Inl e, w') \<Rightarrow> (Inl e, w')
         | (Inr state, w') \<Rightarrow>
             if state = expected_state then (Inr (), w')
             else wait_refilling_state_loop mc expected_state timeout wait_until
                    (snd (sleep REFILLING_STATE_CHECK_TIMEOUT w')))
      else (Inl (MaintenanceModeException
              (''Failed to wait for '' @ refilling_state_name expected_state
               @ '' refilling state during '' @ str_int timeout @ '' seconds.'')), w))"
  by pat_completeness auto
termination
proof (relation "measure (\<lambda>(mc, expected_state, timeout, wait_until, w).
                   nat (wait_until - clock w))", goal_cases)
  case 1
  show ?case by simp
next
  case (2 mc expected_state timeout wait_until w x w' state)
  have "clock w' = clock w"
    using clock_actual_refilling_state [of mc w] 2(2) by (metis snd_conv)
  with 2(1) show ?case
    by (simp add: sleep_def REFILLING_STATE_CHECK_TIMEOUT_def)
qed

declare wait_refilling_state_loop.simps [simp del]

definition wait_refilling_state :: "modbus_client \<Rightarrow> RefillingState \<Rightarrow> int \<Rightarrow> unit io" where
  "wait_refilling_state mc expected_state timeout = (\<lambda>w.
     wait_refilling_state_loop mc expected_state timeout (clock w + timeout) w)"

section \<open>The phases\<close>

definition RULE :: string where
  "RULE = ''=================================================================''"

definition DRAINING_BANNER :: string where
  "DRAINING_BANNER =
     ''\<newline>'' @ RULE @ ''\<newline>''
     @ ''============================ DRAINING ===========================\<newline>\<newline>''"

definition FLUSHING_BANNER :: string where
  "FLUSHING_BANNER =
     ''\<newline>'' @ RULE @ ''\<newline>''
     @ ''============================ FLUSHING ===========================\<newline>\<newline>''"

definition REFILLING_BANNER :: string where
  "REFILLING_BANNER =
     ''\<newline>'' @ RULE @ ''\<newline>''
     @ ''=========================== REFILLING ===========================\<newline>\<newline>''"

definition handle_very_high_electrolyte_level :: "modbus_client \<Rightarrow> bool \<Rightarrow> unit io" where
  "handle_very_high_electrolyte_level mc el_21 =
     io_bind (electrolyte_level mc False) (\<lambda>level.
       if level = VERY_HIGH then
         io_seq (print_red (''Detected '' @ level_name VERY_HIGH @ '' electrolyte level.''))
           (if el_21 then
              io_block
                [wait_confirmation
                   (''Please drain electrolyte to '' @ level_name HIGH
                    @ '' level.\<newline>Type '' @ INPUT_CONFIRMATION @ '' and press Enter to''
                    @ '' proceed:''),
                 wait_electrolyte_level mc HIGH REFILLING_TIMEOUT False]
            else io_raise (MaintenanceModeException ''Please contact Enapter customer support''))
       else io_return ())"

definition perform_draining :: "modbus_client \<Rightarrow> unit io" where
  "perform_draining mc =
     io_block
       [check_refilling_state mc DRAINING,
        print DRAINING_BANNER,
        wait_confirmation
          (''Electrolyser is ready for draining.\<newline>Current electrolyte level''
           @ '' will be reported every '' @ str_int ELECTROLYTE_PRESENCE_CHECK_TIMEOUT
           @ '' seconds until draining is complete.\<newline>Type '' @ INPUT_CONFIRMATION
           @ '' and press Enter to proceed:''),
        wait_electrolyte_level mc EMPTY DRAINING_TIMEOUT False]"

text \<open>
  One round of the loop of \<^verbatim>\<open>_check_water_pipe_connection\<close>, up to the test that
  leaves the loop: it gives the two flags as the round leaves them.
\<close>

definition water_pipe_round ::
  "modbus_client \<Rightarrow> bool \<Rightarrow> pyfloat \<Rightarrow> pyfloat \<Rightarrow> bool \<Rightarrow> bool \<Rightarrow> (bool \<times> bool) io" where
  "water_pipe_round mc expect_no_electrolyte min_pressure max_pressure pressure_ok electrolyte_ok =
     io_seq (print ''Now checking water inlet pressure...'')
     (io_bind (actual_water_inlet_pressure mc) (\<lambda>actual_water_inlet_pressure.
      io_bind
        (if float_less min_pressure actual_water_inlet_pressure
            \<and> float_less actual_water_inlet_pressure max_pressure
         then io_seq (print ''Pressure is OK'') (io_return True)
         else io_seq (emit (PrintPressureBounds actual_water_inlet_pressure
                              min_pressure max_pressure))
                     (io_return pressure_ok))
        (\<lambda>pressure_ok.
      io_bind
        (if expect_no_electrolyte then
           io_seq (print ''Now re-checking electrolyte presence...'')
           (io_bind (electrolyte_level mc True) (\<lambda>level.
              if level = EMPTY
              then io_seq (print ''Electrolyte is OK'') (io_return True)
              else io_seq
                     (io_block
                        [print_yellow
                           (''Electrolyte presence detected. This is normal and may''
                            @ '' occur while attaching a water pipe''),
                         perform_draining mc,
                         check_refilling_state mc WAIT_FLUSHING])
                     (io_return electrolyte_ok)))
         else io_return True)
        (\<lambda>electrolyte_ok. io_return (pressure_ok, electrolyte_ok)))))"

definition water_pipe_text :: "nat \<Rightarrow> string" where
  "water_pipe_text attempts =
     ''Water pipe problems detected after '' @ str_nat attempts @ '' connection''
     @ '' attempt'' @ (if attempts > 1 then ''s'' else []) @ ''. Please contact Enapter''
     @ '' customer support''"

definition WATER_PIPE_PROMPT :: string where
  "WATER_PIPE_PROMPT =
     ''Problems with water pipe detected.\<newline>Please double check''
     @ '' water pipe, type '' @ INPUT_CONFIRMATION @ '' and press Enter when''
     @ '' ready:\<newline>''"

function water_pipe_loop ::
  "modbus_client \<Rightarrow> bool \<Rightarrow> nat \<Rightarrow> pyfloat \<Rightarrow> pyfloat \<Rightarrow> nat \<Rightarrow> bool \<Rightarrow> bool \<Rightarrow> unit io" where
  "water_pipe_loop mc expect_no_electrolyte attempts min_pressure max_pressure
       water_pipe_connect_attempts pressure_ok electrolyte_ok w =
     (if water_pipe_connect_attempts < attempts then
        (case water_pipe_round mc expect_no_electrolyte min_pressure max_pressure
                pressure_ok electrolyte_ok w of
           (Inl e, w') \<Rightarrow> (Inl e, w')
         | (Inr (pressure_ok', electrolyte_ok'), w') \<Rightarrow>
             if pressure_ok' \<and> electrolyte_ok' then (Inr (), w')
             else (case wait_confirmation WATER_PIPE_PROMPT w' of
                     (Inl e, w'') \<Rightarrow> (Inl e, w'')
                   | (Inr _, w'') \<Rightarrow>
                       water_pipe_loop mc expect_no_electrolyte attempts min_pressure
                         max_pressure (water_pipe_connect_attempts + 1)
                         pressure_ok' electrolyte_ok' w''))
      else (Inl (WaterPipeException (water_pipe_text attempts)), w))"
  by pat_completeness auto
termination
  by (relation "measure (\<lambda>(mc, expect_no_electrolyte, attempts, min_pressure, max_pressure,
                           water_pipe_connect_attempts, pressure_ok, electrolyte_ok, w).
                  attempts - water_pipe_connect_attempts)") auto

declare water_pipe_loop.simps [simp del]

definition check_water_pipe_connection :: "modbus_client \<Rightarrow> bool \<Rightarrow> nat \<Rightarrow> unit io" where
  "check_water_pipe_connection mc expect_no_electrolyte attempts =
     io_bind (actual_refilling_min_water_pressure mc) (\<lambda>min_pressure.
     io_bind (actual_refilling_max_water_pressure mc) (\<lambda>max_pressure.
       water_pipe_loop mc expect_no_electrolyte attempts min_pressure max_pressure
         0 False False))"

text \<open>
  The wait of both \<^verbatim>\<open>_perform_flushing\<close> and \<^verbatim>\<open>_finish_refilling\<close> for the end of
  mixing: the timeout is read from the device when the wait starts.
\<close>

definition wait_mixing :: "modbus_client \<Rightarrow> RefillingState \<Rightarrow> unit io" where
  "wait_mixing mc expected_state =
     io_bind (actual_refilling_mixing_time mc) (\<lambda>mixing_time.
       wait_refilling_state mc expected_state (mixing_time * 2))"

definition perform_flushing :: "modbus_client \<Rightarrow> unit io" where
  "perform_flushing mc =
     io_block
       [print FLUSHING_BANNER,
        check_refilling_state mc WAIT_FLUSHING,
        wait_confirmation
          (''Flushing will be performed.\<newline>''
           @ ''1. Disconnect pipe from FILL/DRAIN port\<newline>''
           @ ''2. Connect water pipe\<newline>''
           @ ''3. Type '' @ INPUT_CONFIRMATION @ '' and press Enter when ready:\<newline>''),
        check_water_pipe_connection mc True MAX_WATER_PIPE_CONNECT_ATTEMPTS,
        wait_confirmation
          (''\<newline>Now electrolyser will be automatically refilled with''
           @ '' water.\<newline>Current electrolyte level will be reported every''
           @ '' '' @ str_int ELECTROLYTE_PRESENCE_CHECK_TIMEOUT @ '' seconds until flushing is''
           @ '' complete.\<newline>Type '' @ INPUT_CONFIRMATION @ '' and press Enter to''
           @ '' proceed:''),
        flushing_on mc,
        wait_electrolyte_level mc HIGH REFILLING_TIMEOUT True,
        check_refilling_warnings mc,
        print_yellow
          (''Now waiting until water is mixed with pump, this process will''
           @ '' be monitored automatically...''),
        wait_mixing mc DRAINING,
        perform_draining mc]"

definition refill_to_level :: "bool \<Rightarrow> ElectrolyteLevel" where
  "refill_to_level el_21 = (if el_21 then HIGH else MEDIUM)"

definition electrolyte_type :: "bool \<Rightarrow> string" where
  "electrolyte_type el_21 = (if el_21 then ''3.6L of 1% KOH'' else ''2L of 1.54% KOH'')"

definition overfill_warning :: "bool \<Rightarrow> unit io" where
  "overfill_warning el_21 =
     (if \<not> el_21 then print_red ''WARNING! Overfill may damage Electrolyser!''
      else io_return ())"

definition raise_bag_text :: "ElectrolyteLevel \<Rightarrow> string" where
  "raise_bag_text level =
     ''Now carefully raise the electrolyte bag above the device to fill''
     @ '' to '' @ level_name level @ '' level.\<newline>Please don''
     @ CHR 0x27 # ''t fill more'' @ '' at this step.''"

definition perform_refilling :: "modbus_client \<Rightarrow> bool \<Rightarrow> unit io" where
  "perform_refilling mc el_21 =
     io_block
       [check_refilling_state mc MAINTENANCE,
        print REFILLING_BANNER,
        wait_confirmation
          (''1. Prepare electrolyte bag with '' @ electrolyte_type el_21 @ '' solution\<newline>''
           @ ''2. Connect refilling pipe to FILL/DRAIN port\<newline>''
           @ ''3. Type '' @ INPUT_CONFIRMATION @ '' and press Enter when ready:\<newline>''),
        print_yellow (raise_bag_text LOW),
        overfill_warning el_21,
        print_yellow (''Waiting for '' @ level_name LOW @ '' level electrolyte...''),
        try_finally
          (try_except_else
             (wait_electrolyte_level mc LOW REFILLING_TIMEOUT True)
             is_HighElectrolyteLevelException
             (\<lambda>_. io_seq
                     (print_yellow (''Higher than '' @ level_name LOW @ '' electrolyte level''
                                    @ '' detected...''))
                     (handle_very_high_electrolyte_level mc el_21))
             (check_refilling_state mc KOH_REFILLING))
          (if el_21 then
             io_bind (electrolyte_level mc True) (\<lambda>level.
               if level_value level < level_value HIGH
               then check_refilling_state mc KOH_REFILLING
               else io_return ())
           else io_return ()),
        io_bind (electrolyte_level mc True) (\<lambda>level.
          if level_value level < level_value (refill_to_level el_21) then
            io_block
              [print_yellow (raise_bag_text (refill_to_level el_21)),
               overfill_warning el_21,
               print_yellow (''Waiting for '' @ level_name (refill_to_level el_21)
                             @ '' level electrolyte...''),
               try_except
                 (wait_electrolyte_level mc (refill_to_level el_21) REFILLING_TIMEOUT True)
                 is_HighElectrolyteLevelException
                 (\<lambda>_. handle_very_high_electrolyte_level mc el_21)]
          else io_return ()),
        check_refilling_state mc KOH_REFILLING_FINISH]"

definition finish_refilling :: "modbus_client \<Rightarrow> unit io" where
  "finish_refilling mc =
     io_block
       [check_refilling_state mc SERVICE_REFILLING,
        wait_electrolyte_level mc HIGH REFILLING_TIMEOUT True,
        print_yellow
          (''Now waiting until water is mixed with pump, this process will be''
           @ '' monitored automatically...''),
        wait_mixing mc R_IDLE,
        check_refilling_warnings mc,
        check_refilling_state mc R_IDLE]"

section \<open>The two sequences of phases\<close>

definition unexpected_refilling_state :: "RefillingState \<Rightarrow> exn" where
  "unexpected_refilling_state state =
     MaintenanceModeException
       (''Got unexpected refilling state'' @ '' '' @ refilling_state_name state
        @ '', please contact Enapter'' @ '' customer support'')"

definition run_maintenance_21 :: "modbus_client \<Rightarrow> State \<Rightarrow> unit io" where
  "run_maintenance_21 mc initial_state =
     io_seq (print ''Running Maintenance for EL2.1...'')
     (io_seq (maintenance_on mc initial_state)
     (io_bind (actual_refilling_state mc) (\<lambda>initial_refilling_state.
      io_bind
        (if initial_refilling_state = DRAINING then io_return True
         else if initial_refilling_state = MAINTENANCE then
           io_seq (print (''Seems like it'' @ CHR 0x27 # ''s first refilling. Draining procedure will be''
                          @ '' skipped.''))
                  (io_return False)
         else io_raise (unexpected_refilling_state initial_refilling_state))
        (\<lambda>draining_required.
      io_block
        [if draining_required then perform_draining mc else io_return (),
         perform_refilling mc True,
         check_refilling_warnings mc,
         maintenance_off mc,
         check_refilling_state mc R_IDLE]))))"

text \<open>
  \<^verbatim>\<open>_run_maintenance_4x\<close> after the second read of the refilling state, given whether
  flushing is still required.
\<close>

definition run_maintenance_4x_rest :: "modbus_client \<Rightarrow> bool \<Rightarrow> unit io" where
  "run_maintenance_4x_rest mc flushing_required =
     io_block
       [if flushing_required then perform_flushing mc else io_return (),
        perform_refilling mc False,
        wait_confirmation
          (''Now Maintenance mode will be turned off. Check that water pipe''
           @ '' is connected to finish refilling automatically.\<newline>Type''
           @ '' '' @ INPUT_CONFIRMATION @ '' and press Enter when ready:''),
        maintenance_off mc,
        try_except_else
          (check_water_pipe_connection mc False 1)
          is_WaterPipeException
          (\<lambda>_. print_yellow
                  (''Failed to fill water to '' @ str_nat (level_value HIGH) @ '' level.\<newline>Please''
                   @ '' make sure that water pipe is connected properly.\<newline>After pipe is''
                   @ '' OK, water will be added automatically when required.''))
          (finish_refilling mc)]"

definition run_maintenance_4x :: "modbus_client \<Rightarrow> State \<Rightarrow> unit io" where
  "run_maintenance_4x mc initial_state =
     io_seq (print ''Running Maintenance for EL4.x...'')
     (io_seq (maintenance_on mc initial_state)
     (io_bind (actual_refilling_state mc) (\<lambda>initial_refilling_state.
      io_bind
        (if initial_refilling_state = DRAINING then io_return (True, True)
         else if initial_refilling_state = WAIT_FLUSHING then io_return (False, True)
         else if initial_refilling_state = MAINTENANCE then
           io_seq (print (''Seems like it'' @ CHR 0x27 # ''s first refilling. Draining and flushing''
                          @ '' procedures will be skipped.''))
                  (io_return (False, False))
         else io_raise (unexpected_refilling_state initial_refilling_state))
        (\<lambda>(draining_required, flushing_required).
      io_seq (if draining_required then perform_draining mc else io_return ())
      (io_bind (actual_refilling_state mc) (\<lambda>fresh_refilling_state.
         run_maintenance_4x_rest mc
           (if fresh_refilling_state = MAINTENANCE then False else flushing_required)))))))"

section \<open>The device model\<close>

text \<open>
  \<^verbatim>\<open>bytes.fromhex(f'{n:x}').decode()\<close>. \<^verbatim>\<open>fromhex\<close> takes the digits in pairs and
  raises \<^verbatim>\<open>ValueError\<close> when one is left over; \<^verbatim>\<open>decode\<close> raises
  \<^verbatim>\<open>UnicodeDecodeError\<close> unless the bytes are well-formed UTF-8. A Python string is
  kept here as its UTF-8 bytes, so a decoded string is the bytes themselves. The texts of
  these two built-in exceptions are shortened.
\<close>

definition hex_value :: "char \<Rightarrow> nat option" where
  "hex_value c =
     (let n = (of_char c :: nat) in
      if 48 \<le> n \<and> n \<le> 57 then Some (n - 48)
      else if 97 \<le> n \<and> n \<le> 102 then Some (n - 87)
      else if 65 \<le> n \<and> n \<le> 70 then Some (n - 55)
      else None)"

fun fromhex :: "string \<Rightarrow> exn + nat list" where
  "fromhex [] = Inr []"
| "fromhex [c] = Inl (ValueError ''non-hexadecimal number found in fromhex() arg'')"
| "fromhex (a # b # cs) =
     (case (hex_value a, hex_value b) of
        (Some x, Some y) \<Rightarrow>
          (case fromhex cs of Inl e \<Rightarrow> Inl e | Inr bs \<Rightarrow> Inr ((16 * x + y) # bs))
      | _ \<Rightarrow> Inl (ValueError ''non-hexadecimal number found in fromhex() arg''))"

definition continuation :: "nat \<Rightarrow> bool" where
  "continuation b = (128 \<le> b \<and> b \<le> 191)"

fun valid_utf8 :: "nat list \<Rightarrow> bool" where
  "valid_utf8 [] = True"
| "valid_utf8 [b0] = (b0 < 128)"
| "valid_utf8 [b0, b1] =
     (if b0 < 128 then valid_utf8 [b1]
      else 194 \<le> b0 \<and> b0 \<le> 223 \<and> continuation b1)"
| "valid_utf8 [b0, b1, b2] =
     (if b0 < 128 then valid_utf8 [b1, b2]
      else if 194 \<le> b0 \<and> b0 \<le> 223 then continuation b1 \<and> valid_utf8 [b2]
      else 224 \<le> b0 \<and> b0 \<le> 239 \<and> continuation b1 \<and> continuation b2
           \<and> (b0 = 224 \<longrightarrow> 160 \<le> b1) \<and> (b0 = 237 \<longrightarrow> b1 \<le> 159))"
| "valid_utf8 (b0 # b1 # b2 # b3 # bs) =
     (if b0 < 128 then valid_utf8 (b1 # b2 # b3 # bs)
      else if 194 \<le> b0 \<and> b0 \<le> 223 then continuation b1 \<and> valid_utf8 (b2 # b3 # bs)
      else if 224 \<le> b0 \<and> b0 \<le> 239 then
        continuation b1 \<and> continuation b2
        \<and> (b0 = 224 \<longrightarrow> 160 \<le> b1) \<and> (b0 = 237 \<longrightarrow> b1 \<le> 159)
        \<and> valid_utf8 (b3 # bs)
      else 240 \<le> b0 \<and> b0 \<le> 244 \<and> continuation b1 \<and> continuation b2 \<and> continuation b3
           \<and> (b0 = 240 \<longrightarrow> 144 \<le> b1) \<and> (b0 = 244 \<longrightarrow> b1 \<le> 143)
           \<and> valid_utf8 bs)"

definition bytes_decode :: "nat list \<Rightarrow> exn + string" where
  "bytes_decode bs =
     (if valid_utf8 bs then Inr (map char_of bs)
      else Inl (UnicodeDecodeError ''utf-8 codec cannot decode bytes''))"

definition decode_device_name :: "nat \<Rightarrow> exn + string" where
  "decode_device_name converted_device_model =
     (case fromhex (hex_digits converted_device_model) of
        Inl e \<Rightarrow> Inl e
      | Inr bs \<Rightarrow> bytes_decode bs)"

definition run_maintenance :: "modbus_client \<Rightarrow> State \<Rightarrow> unit io" where
  "run_maintenance mc initial_state =
     io_bind (read_input_registers mc (input_address DEVICE_MODEL) 2) (\<lambda>r.
     io_bind (word_list_to_long r) (\<lambda>longs.
     io_bind (subscript0_list longs) (\<lambda>converted_device_model.
     io_bind (io_lift (decode_device_name converted_device_model)) (\<lambda>decoded_device_name.
     io_seq
       (let model = DeviceModel_call decoded_device_name in
        if model = EL21 then run_maintenance_21 mc initial_state
        else if model = EL40 \<or> model = ES40 \<or> model = ES41
        then run_maintenance_4x mc initial_state
        else io_raise (MaintenanceModeException
               (''Got unknown device model: '' @ decoded_device_name @ '', please ''
                @ ''contact Enapter customer support.'')))
       (print ''Maintenance mode completed OK'')))))"

section \<open>The session\<close>

definition WARNING_TEXT :: string where
  "WARNING_TEXT =
     ''WARNING! Please read carefully!\<newline>This script turns''
     @ '' Maintenance mode on.\<newline>Maintenance mode requires manual''
     @ '' actions with electrolyser such as electrolyte draining,''
     @ '' flushing (for EL4.x) and refilling.\<newline>If you fill''
     @ '' electrolyte for the first time, only refilling is required.''
     @ ''\<newline>If at some step electrolyte level is reported incorrectly,''
     @ '' it may indicate hardware problems.\<newline>In this case terminate''
     @ '' script with Ctrl+C and contact Enapter customer support.\<newline>''
     @ ''Script will be terminated anyway if draining/refilling is''
     @ '' not complete during''
     @ '' '' @ str_int (DRAINING_TIMEOUT div 60) @ ''/'' @ str_int (REFILLING_TIMEOUT div 60)
     @ '' minutes''
     @ '' correspondingly.\<newline>Type '' @ INPUT_CONFIRMATION @ '' and press Enter''
     @ '' if you really want to continue. Press Ctrl+''
     @ [CHR 0xE0, CHR 0xB8, CHR 0xB0, CHR 0xE0, CHR 0xB8, CHR 0x81] @ '' or Enter to''
     @ '' exit:\<newline>''"

definition VERY_HIGH_EXIT :: string where
  "VERY_HIGH_EXIT =
     ''Very High Electrolyte Level Switch is enabled, Maintenance''
     @ '' mode can'' @ CHR 0x27 # ''t be turned on.\<newline>If you use Electrolyser 2.1,''
     @ '' please drain some electrolyte, reboot device and run script''
     @ '' again.\<newline>Otherwise please contact Enapter customer support.''"

definition state_exit :: "State \<Rightarrow> string" where
  "state_exit state =
     ''Electrolyser state is '' @ state_name state @ '', can'' @ CHR 0x27 # ''t turn Maintenance''
     @ '' mode on. Switch electrolyser to either '' @ state_name IDLE @ '' or''
     @ '' '' @ state_name MAINTENANCE_MODE @ '' and run script again.''"

text \<open>The body of the \<^verbatim>\<open>try\<close> statement of \<^verbatim>\<open>main\<close>: the pre-flight checks, then the run.\<close>

definition main_try :: "modbus_client \<Rightarrow> unit io" where
  "main_try mc =
     io_seq (print_yellow ''Checking if Maintenance can be performed...'')
     (io_bind (electrolyte_level mc True) (\<lambda>level.
        if level = VERY_HIGH then io_raise (SystemExit VERY_HIGH_EXIT)
        else
          io_bind (actual_state mc) (\<lambda>state.
            if state \<noteq> IDLE \<and> state \<noteq> MAINTENANCE_MODE
            then io_raise (SystemExit (state_exit state))
            else io_seq (print_yellow ''Conditions for Maintenance are OK'')
                        (run_maintenance mc state))))"

definition or_text :: "string \<Rightarrow> string \<Rightarrow> string" where
  "or_text s fallback = (if s = [] then fallback else s)"

text \<open>The \<^verbatim>\<open>except Exception as e\<close> clause of \<^verbatim>\<open>main\<close>; it ends with \<^verbatim>\<open>raise\<close>.\<close>

definition main_except :: "modbus_client \<Rightarrow> exn \<Rightarrow> unit io" where
  "main_except mc e =
     io_block
       [print (''Exception occurred: '' @ exn_str e),
        (\<lambda>w. print (''Modbus error: '' @ last_error_as_txt mc (trace w)) w),
        (\<lambda>w. print (''Modbus exception: '' @ last_except_as_txt mc (trace w)) w),
        io_bind (decode_errors mc) (\<lambda>errors.
        io_bind (decode_warnings mc) (\<lambda>warnings.
          print_red
            (''Please provide the following errors and warnings to Enapter''
             @ '' customer support:\<newline>Errors: '' @ or_text (join '', '' errors) ''No errors''
             @ ''\<newline>Warnings: '' @ or_text (join '', '' warnings) ''No warnings''
             @ ''\<newline>Events description is available at''
             @ '' https://handbook.enapter.com''))),
        io_raise e]"

text \<open>
  \<^verbatim>\<open>main\<close>, from the question it asks first. (The check of the Python version, the
  colour setting of the Windows console and the parsing of the command line come before
  any access to the device and are left out.) \<^verbatim>\<open>input(prompt)\<close> writes the prompt
  without a line break.
\<close>

definition main :: "modbus_client \<Rightarrow> unit io" where
  "main mc =
     io_seq (emit (Print (text_color WARNING_TEXT RED)))
     (io_bind input_line (\<lambda>answer.
        if upper answer \<noteq> INPUT_CONFIRMATION
        then io_raise (SystemExit ''Maintenance mode script execution stopped by user'')
        else try_except (main_try mc) is_Exception (main_except mc)))"

section \<open>Scripted devices for closed examples\<close>

text \<open>
  A device that answers from a script: for each register address the list of its
  successive answers (the last one is repeated for ever). The closed examples below run
  the program against such devices.
\<close>

fun is_read_of :: "nat \<Rightarrow> event \<Rightarrow> bool" where
  "is_read_of a (ReadInput b _ _) = (a = b)"
| "is_read_of a (ReadHolding b _ _) = (a = b)"
| "is_read_of a _ = False"

definition scripted ::
  "(nat \<times> nat list list) list \<Rightarrow> event list \<Rightarrow> nat \<Rightarrow> nat \<Rightarrow> nat list option" where
  "scripted script events address count =
     (case map_of script address of
        None \<Rightarrow> None
      | Some answers \<Rightarrow>
          (if answers = [] then None
           else Some (answers ! min (length (filter (is_read_of address) events))
                                    (length answers - 1))))"

definition scripted_client :: "(nat \<times> nat list list) list \<Rightarrow> modbus_client" where
  "scripted_client script =
     \<lparr>input_registers = scripted script, holding_registers = scripted script,
      last_error_as_txt = (\<lambda>_. ''no error''), last_except_as_txt = (\<lambda>_. ''no exception'')\<rparr>"

definition start :: "string list \<Rightarrow> world" where
  "start lines = \<lparr>clock = 0, stdin = lines, trace = []\<rparr>"

lemmas io_simps = io_return_def io_raise_def io_bind_def io_seq_def emit_def print_def io_lift_def
  read_input_registers_def read_holding_registers_def sleep_def write_single_register_def
  subscript0_def well_formed_answer_def

lemmas client_simps = scripted_client_def scripted_def start_def

section \<open>C1: the electrolyte level derived from the four switches\<close>

text \<open>
  The words of the specification, for a list of switches from the lowest to the highest:
  \<^item> \<open>no_gaps\<close>: the enabled switches form a contiguous run from the bottom;
  \<^item> \<open>highest_position b\<close>: the position, counted from one, of the highest switch whose
    reading is \<open>b\<close> (zero when there is none);
  \<^item> \<open>lowest_position b\<close>: the same for the lowest such switch;
  \<^item> \<open>level_at\<close>: the level of an ordinal.
\<close>

fun no_gaps :: "bool list \<Rightarrow> bool" where
  "no_gaps [] = True"
| "no_gaps (s # ss) = (if s then no_gaps ss else True \<notin> set ss)"

fun highest_position :: "bool \<Rightarrow> bool list \<Rightarrow> nat" where
  "highest_position b [] = 0"
| "highest_position b (s # ss) =
     (if b \<in> set ss then Suc (highest_position b ss) else if s = b then 1 else 0)"

fun lowest_position :: "bool \<Rightarrow> bool list \<Rightarrow> nat" where
  "lowest_position b [] = 0"
| "lowest_position b (s # ss) =
     (if s = b then 1 else if b \<in> set ss then Suc (lowest_position b ss) else 0)"

definition level_at :: "nat \<Rightarrow> ElectrolyteLevel" where
  "level_at n = [EMPTY, LOW, MEDIUM, HIGH, VERY_HIGH] ! n"

definition gap_client :: modbus_client where
  "gap_client = scripted_client [(7002, [[1]]), (7003, [[0]]), (7000, [[1]]), (7001, [[0]])]"

lemma level_of_four_switches:
  "level_of_switches [l, m, h, v] =
     (if no_gaps [l, m, h, v] then Inr (level_at (highest_position True [l, m, h, v]))
      else Inl (MaintenanceModeException (inconsistency_text
             (level_at (highest_position True [l, m, h, v]))
             (level_at (highest_position False
                          (take (highest_position True [l, m, h, v]) [l, m, h, v]))))))"
  by (cases l; cases m; cases h; cases v;
      simp add: level_of_switches_def search_top_switch_def ElectrolyteLevel_call_def level_at_def)

text \<open>
  C1 (as amended). Whatever the four switches read: when the enabled switches form a
  contiguous run from the bottom, \<^verbatim>\<open>_electrolyte_level\<close> returns the level of the highest
  enabled switch (\<open>EMPTY\<close> when none is enabled) and, when logging, prints it; when there
  is a gap it raises \<open>MaintenanceModeException\<close>, whose message names the detected level and
  the highest disabled switch below it, and nothing but the four reads has happened. The
  level is never clamped to the top of the contiguous run.
\<close>

theorem electrolyte_level_from_switches:
  assumes "read_switches mc w = (Inr [low, medium, high, very_high], w')"
  shows "electrolyte_level mc logging w =
    (let switches = [low, medium, high, very_high];
         detected = level_at (highest_position True switches)
     in if no_gaps switches
        then (Inr detected,
              if logging
              then w'\<lparr>trace := trace w' @
                     [Print (CYAN @ level_name detected @ '' electrolyte level detected...''
                             @ END @ ''\<newline>'')]\<rparr>
              else w')
        else (Inl (MaintenanceModeException (inconsistency_text detected
                (level_at (highest_position False
                             (take (highest_position True switches) switches))))),
              w'))"
  using assms
  by (simp add: electrolyte_level_def io_simps level_of_four_switches Let_def print_cyan_def
        text_color_def)

lemma gap_client_switches:
  "read_switches gap_client (start []) =
     (Inr [True, False, True, False], snd (read_switches gap_client (start [])))"
  by (simp add: read_switches_def low_level_switch_def medium_level_switch_def
        high_level_switch_def very_high_level_switch_def read_switch_def gap_client_def
        io_simps client_simps Let_def)

theorem electrolyte_level_from_switches_witness:
  "fst (read_switches gap_client (start [])) = Inr [True, False, True, False] \<and>
   electrolyte_level gap_client True (start []) =
     (Inl (MaintenanceModeException (inconsistency_text HIGH MEDIUM)),
      snd (read_switches gap_client (start [])))"
proof -
  have "fst (read_switches gap_client (start [])) = Inr [True, False, True, False]"
    by (metis gap_client_switches fst_conv)
  moreover have "electrolyte_level gap_client True (start []) =
     (Inl (MaintenanceModeException (inconsistency_text HIGH MEDIUM)),
      snd (read_switches gap_client (start [])))"
    using electrolyte_level_from_switches [OF gap_client_switches, of True]
    by (simp add: level_at_def)
  ultimately show ?thesis by blast
qed

text \<open>
  The claim as stated fails where two switches below the detected one are disabled: with
  only the high switch enabled the message names \<open>MEDIUM\<close>, the highest disabled switch
  below \<open>HIGH\<close>, and not \<open>LOW\<close>, the lowest one.
\<close>

theorem lowest_disabled_switch_counterexample:
  "level_of_switches [False, False, True, False]
     = Inl (MaintenanceModeException (inconsistency_text HIGH MEDIUM)) \<and>
   level_at (lowest_position False (take 3 [False, False, True, False])) = LOW \<and>
   level_of_switches [False, False, True, False]
     \<noteq> Inl (MaintenanceModeException (inconsistency_text HIGH LOW))"
  by (simp add: level_of_switches_def search_top_switch_def ElectrolyteLevel_call_def level_at_def
        inconsistency_text_def)

section \<open>C4: decoding an events register\<close>

lemma enum_call_unknown:
  "v \<notin> snd ` set members \<Longrightarrow> enum_call members v = (''UNKNOWN'', -1)"
proof -
  assume "v \<notin> snd ` set members"
  then have "\<forall>member \<in> set members. snd member \<noteq> v" by force
  then have "find (\<lambda>member. snd member = v) members = None"
    by (fastforce simp: find_None_iff)
  then show ?thesis by (simp add: enum_call_def)
qed

lemma read_input_registers_length:
  assumes "read_input_registers mc address count w = (Inr (Some raw), w')"
  shows "length raw = count"
  using assms
  by (auto simp: read_input_registers_def well_formed_answer_def Let_def
           split: option.splits if_splits)

lemma decode_events_run:
  assumes "read_input_registers mc (input_address register) 33 w = (Inr (Some (n # codes)), w')"
  shows "decode_events mc register event_type w =
    (Inr (map (\<lambda>event. format_event (fst (enum_call event_type (int event))) (int event))
              (take n codes)), w')"
  using assms by (simp add: decode_events_def io_bind_def io_return_def subscript0_def)

text \<open>
  C4. Whenever the 33 registers of an events array are read (\<open>raw\<close>, its first word
  the count): \<^verbatim>\<open>_decode_events\<close> returns, and does not raise; with a count of zero the
  result is empty whatever the other 32 words hold; otherwise it has as many entries as the
  count says, and at most the 32 the array holds; entry \<open>i\<close> is the formatted member of
  the enumeration for the raw code \<open>i + 1\<close>, and a code that is not the value of any
  member is formatted under the name \<open>UNKNOWN\<close>.
\<close>

theorem decode_events_entries:
  assumes "read_input_registers mc (input_address register) 33 w = (Inr (Some raw), w')"
  shows "\<exists>events. decode_events mc register event_type w = (Inr events, w') \<and>
           (hd raw = 0 \<longrightarrow> events = []) \<and>
           length events = min (hd raw) 32 \<and>
           (\<forall>i < length events.
              events ! i = format_event (fst (enum_call event_type (int (raw ! Suc i))))
                                        (int (raw ! Suc i)) \<and>
              (int (raw ! Suc i) \<notin> snd ` set event_type \<longrightarrow>
                 events ! i = format_event ''UNKNOWN'' (int (raw ! Suc i))))"
proof -
  have len: "length raw = 33" using assms by (rule read_input_registers_length)
  then obtain n codes where raw: "raw = n # codes"
    by (cases raw) auto
  have codes: "length codes = 32" using len unfolding raw by simp
  let ?dec = "\<lambda>event. format_event (fst (enum_call event_type (int event))) (int event)"
  let ?events = "map ?dec (take n codes)"
  have run: "decode_events mc register event_type w = (Inr ?events, w')"
    using assms unfolding raw by (rule decode_events_run)
  have l: "length ?events = min (hd raw) 32" unfolding raw codes [symmetric] by simp
  have z: "hd raw = 0 \<longrightarrow> ?events = []" unfolding raw by simp
  have nth: "?events ! i = ?dec (raw ! Suc i)" if "i < length ?events" for i
    using that unfolding raw by simp
  have unk: "?events ! i = format_event ''UNKNOWN'' (int (raw ! Suc i))"
    if "i < length ?events" "int (raw ! Suc i) \<notin> snd ` set event_type" for i
    using nth [OF that(1)] enum_call_unknown [OF that(2)] by simp
  show ?thesis
  proof (intro exI conjI allI impI)
    show "decode_events mc register event_type w = (Inr ?events, w')" by (rule run)
    show "?events = []" if "hd raw = 0" using z that by blast
    show "length ?events = min (hd raw) 32" by (rule l)
    show "?events ! i = ?dec (raw ! Suc i)" if "i < length ?events" for i by (rule nth [OF that])
    show "?events ! i = format_event ''UNKNOWN'' (int (raw ! Suc i))"
      if "i < length ?events" "int (raw ! Suc i) \<notin> snd ` set event_type" for i
      by (rule unk [OF that])
  qed
qed

text \<open>
  Two warnings then thirty words of garbage: a known code and one outside the table.
\<close>

definition warnings_client :: modbus_client where
  "warnings_client = scripted_client [(768, [2 # 0x318A # 0x9999 # replicate 30 7])]"

lemma warnings_client_read:
  "read_input_registers warnings_client (input_address WARNINGS) 33 (start []) =
     (Inr (Some (2 # 0x318A # 0x9999 # replicate 30 7)),
      snd (read_input_registers warnings_client (input_address WARNINGS) 33 (start [])))"
  by (simp add: warnings_client_def io_simps client_simps Let_def list_all_iff)

lemma hex_318a: "hex 0x318A = ''0x318a''"
  by (simp add: hex_def hex_digits.simps)

lemma hex_9999: "hex 0x9999 = ''0x9999''"
  by (simp add: hex_def hex_digits.simps)

lemma wr10: "enum_call ElWarning 0x318A = (''WR_10'', 0x318A)"
  by (simp add: enum_call_def ElWarning_def)

lemma unk9999: "(0x9999::int) \<notin> snd ` set ElWarning"
  by (simp add: ElWarning_def)

theorem decode_events_entries_witness:
  "fst (read_input_registers warnings_client (input_address WARNINGS) 33 (start []))
     = Inr (Some (2 # 0x318A # 0x9999 # replicate 30 7)) \<and>
   fst (decode_events warnings_client WARNINGS ElWarning (start []))
     = Inr [''WR_10 (0x318a)'', ''UNKNOWN (0x9999)'']"
proof -
  let ?raw = "2 # 0x318A # 0x9999 # replicate 30 (7::nat)"
  obtain events where
    run: "decode_events warnings_client WARNINGS ElWarning (start []) =
            (Inr events, snd (read_input_registers warnings_client (input_address WARNINGS) 33 (start [])))"
    and len: "length events = min (hd ?raw) 32"
    and nth: "\<forall>i < length events.
              events ! i = format_event (fst (enum_call ElWarning (int (?raw ! Suc i))))
                                        (int (?raw ! Suc i)) \<and>
              (int (?raw ! Suc i) \<notin> snd ` set ElWarning \<longrightarrow>
                 events ! i = format_event ''UNKNOWN'' (int (?raw ! Suc i)))"
    using decode_events_entries [OF warnings_client_read, of ElWarning] by blast
  have l2: "length events = 2" using len by simp
  have e0: "events ! 0 = ''WR_10 (0x318a)''"
    using nth l2 by (simp add: wr10 format_event_def hex_318a)
  have "1 < length events" using l2 by simp
  with nth have "int (?raw ! Suc 1) \<notin> snd ` set ElWarning \<longrightarrow>
      events ! 1 = format_event ''UNKNOWN'' (int (?raw ! Suc 1))" by blast
  moreover have "int (?raw ! Suc 1) = 0x9999" by simp
  ultimately have "events ! 1 = format_event ''UNKNOWN'' 0x9999"
    using unk9999 by simp
  then have e1: "events ! 1 = ''UNKNOWN (0x9999)''"
    by (simp add: format_event_def hex_9999)
  have "events = [events ! 0, events ! 1]"
    using l2 by (cases events; cases "tl events"; auto)
  with e0 e1 have "events = [''WR_10 (0x318a)'', ''UNKNOWN (0x9999)'']" by simp
  with run have "fst (decode_events warnings_client WARNINGS ElWarning (start []))
     = Inr [''WR_10 (0x318a)'', ''UNKNOWN (0x9999)'']" by simp
  moreover have "fst (read_input_registers warnings_client (input_address WARNINGS) 33 (start []))
     = Inr (Some ?raw)" by (metis warnings_client_read fst_conv)
  ultimately show ?thesis by blast
qed

lemmas level_simps = electrolyte_level_def read_switches_def low_level_switch_def
  medium_level_switch_def high_level_switch_def very_high_level_switch_def read_switch_def
  level_of_switches_def search_top_switch_def ElectrolyteLevel_call_def print_cyan_def
  text_color_def

section \<open>C5: a level above the target during refilling\<close>

definition overshoot_text :: "ElectrolyteLevel \<Rightarrow> ElectrolyteLevel \<Rightarrow> string" where
  "overshoot_text expected_level level =
     ''Higher electrolyte level detected. Expected '' @ level_name expected_level
     @ '', actual '' @ level_name level
     @ ''. If this happened during automatic refilling, please contact''
     @ '' Enapter customer support.''"

text \<open>
  C5. The loop of \<^verbatim>\<open>_wait_electrolyte_level\<close> called with \<^verbatim>\<open>refilling=True\<close>, at any
  round that starts before the deadline: when the level observed in that round is strictly
  above the expected one, the call raises \<open>HighElectrolyteLevelException\<close> naming both
  levels, in the state reached by the observation itself: nothing is slept after it and the
  clock has not moved, whatever is left of the timeout.
\<close>

theorem overshoot_raised_at_observation:
  assumes "clock w < wait_until"
    and "electrolyte_level mc True w = (Inr level, w')"
    and "level_value expected_level < level_value level"
  shows "wait_electrolyte_level_loop mc expected_level timeout True wait_until w =
           (Inl (HighElectrolyteLevelException (overshoot_text expected_level level)), w') \<and>
         clock w' = clock w"
proof -
  have ne: "level \<noteq> expected_level" using assms(3) by auto
  have "clock w' = clock w"
    using clock_electrolyte_level [of mc True w] assms(2) by simp
  then show ?thesis
    using assms ne
    by (simp add: wait_electrolyte_level_loop.simps [of mc expected_level timeout True wait_until w]
          overshoot_text_def)
qed

text \<open>
  The scenario of the specification: target \<open>LOW\<close>, a sensor that reports \<open>EMPTY\<close> and
  then \<open>MEDIUM\<close>, a timeout of 300 seconds. The exception is raised at the second
  observation, ten seconds after the start.
\<close>

definition overshoot_client :: modbus_client where
  "overshoot_client =
     scripted_client [(7002, [[0], [1]]), (7003, [[0], [1]]), (7000, [[0]]), (7001, [[0]])]"

definition after_first_poll :: world where
  "after_first_poll =
     snd (sleep ELECTROLYTE_PRESENCE_CHECK_TIMEOUT
            (snd (electrolyte_level overshoot_client True (start []))))"

lemma overshoot_first:
  "electrolyte_level overshoot_client True (start []) =
     (Inr EMPTY, snd (electrolyte_level overshoot_client True (start [])))"
  by (simp add: overshoot_client_def level_simps io_simps client_simps Let_def)

lemma overshoot_second:
  "electrolyte_level overshoot_client True after_first_poll =
     (Inr MEDIUM, snd (electrolyte_level overshoot_client True after_first_poll))"
  by (simp add: after_first_poll_def overshoot_client_def level_simps io_simps client_simps Let_def
        ELECTROLYTE_PRESENCE_CHECK_TIMEOUT_def)

lemma after_first_poll_clock: "clock after_first_poll = 10"
  using clock_electrolyte_level [of overshoot_client True "start []"]
  by (simp add: after_first_poll_def sleep_def ELECTROLYTE_PRESENCE_CHECK_TIMEOUT_def start_def)

theorem overshoot_raised_at_observation_witness:
  "wait_electrolyte_level overshoot_client LOW 300 True (start []) =
     (Inl (HighElectrolyteLevelException (overshoot_text LOW MEDIUM)),
      snd (electrolyte_level overshoot_client True after_first_poll)) \<and>
   clock (snd (electrolyte_level overshoot_client True after_first_poll)) = 10"
proof -
  have second: "wait_electrolyte_level_loop overshoot_client LOW 300 True 300 after_first_poll =
      (Inl (HighElectrolyteLevelException (overshoot_text LOW MEDIUM)),
       snd (electrolyte_level overshoot_client True after_first_poll)) \<and>
      clock (snd (electrolyte_level overshoot_client True after_first_poll)) = clock after_first_poll"
    by (rule overshoot_raised_at_observation [OF _ overshoot_second])
       (simp_all add: after_first_poll_clock)
  have first: "wait_electrolyte_level overshoot_client LOW 300 True (start []) =
      wait_electrolyte_level_loop overshoot_client LOW 300 True 300 after_first_poll"
    unfolding wait_electrolyte_level_def
    apply (subst wait_electrolyte_level_loop.simps)
    apply (subst overshoot_first)
    apply (simp add: start_def after_first_poll_def)
    done
  show ?thesis using first second by (simp add: after_first_poll_clock)
qed

section \<open>C6: the wait for a level ends at its deadline\<close>

definition timeout_text :: "ElectrolyteLevel \<Rightarrow> int \<Rightarrow> string" where
  "timeout_text expected_level timeout =
     ''Failed to wait for '' @ level_name expected_level @ '' level during ''
     @ str_int (timeout div 60) @ '' minutes.''"

lemma wait_loop_expired:
  assumes "\<not> clock w < wait_until"
  shows "wait_electrolyte_level_loop mc expected_level timeout refilling wait_until w =
           (Inl (MaintenanceModeException (timeout_text expected_level timeout)), w)"
  apply (subst wait_electrolyte_level_loop.simps)
  using assms apply (simp add: timeout_text_def)
  done

lemma wait_loop_again:
  assumes "clock w < wait_until"
    and "electrolyte_level mc True w = (Inr level, w1)"
    and "level \<noteq> expected_level"
    and "\<not> (refilling \<and> level_value expected_level < level_value level)"
  shows "wait_electrolyte_level_loop mc expected_level timeout refilling wait_until w =
         wait_electrolyte_level_loop mc expected_level timeout refilling wait_until
           (snd (sleep ELECTROLYTE_PRESENCE_CHECK_TIMEOUT w1))"
  apply (subst wait_electrolyte_level_loop.simps)
  using assms apply auto
  done

lemma div10_shift: "(x + 10) div 10 = x div 10 + (1::int)"
  by simp

lemma polls_arith:
  fixes c u :: int
  assumes "c < u"
  shows "(if c + 10 < u then c + 10 + 10 * ((u - (c + 10) + 9) div 10) else c + 10)
           = c + 10 * ((u - c + 9) div 10)"
proof (cases "c + 10 < u")
  case True
  have "u - c + 9 = (u - (c + 10) + 9) + 10" by simp
  then have "(u - c + 9) div 10 = (u - (c + 10) + 9) div 10 + 1"
    by (metis div10_shift)
  with True show ?thesis by simp
next
  case False
  have "u - c + 9 = (u - c - 1) + 10" by simp
  then have "(u - c + 9) div 10 = (u - c - 1) div 10 + 1"
    by (metis div10_shift)
  moreover have "(u - c - 1) div 10 = 0"
    using False assms by (intro div_pos_pos_trivial) simp_all
  ultimately show ?thesis using False by simp
qed

lemma wait_loop_times_out:
  assumes never: "\<forall>w. \<exists>level w'. electrolyte_level mc True w = (Inr level, w') \<and>
              level \<noteq> expected_level \<and>
              (refilling \<longrightarrow> level_value level \<le> level_value expected_level)"
  shows "wait_electrolyte_level_loop mc expected_level timeout refilling wait_until w =
           (Inl (MaintenanceModeException (timeout_text expected_level timeout)),
            snd (wait_electrolyte_level_loop mc expected_level timeout refilling wait_until w)) \<and>
         clock (snd (wait_electrolyte_level_loop mc expected_level timeout refilling wait_until w))
           = (if clock w < wait_until then clock w + 10 * ((wait_until - clock w + 9) div 10)
              else clock w)"
  using never
proof (induction mc expected_level timeout refilling wait_until w
       rule: wait_electrolyte_level_loop.induct)
  case (1 mc expected_level timeout refilling wait_until w)
  show ?case
  proof (cases "clock w < wait_until")
    case False
    then show ?thesis by (simp add: wait_loop_expired)
  next
    case True
    obtain level w1 where obs: "electrolyte_level mc True w = (Inr level, w1)"
      and ne: "level \<noteq> expected_level"
      and le: "refilling \<longrightarrow> level_value level \<le> level_value expected_level"
      using "1.prems" by blast
    have c1: "clock w1 = clock w"
      using clock_electrolyte_level [of mc True w] obs by simp
    let ?w2 = "snd (sleep ELECTROLYTE_PRESENCE_CHECK_TIMEOUT w1)"
    have c2: "clock ?w2 = clock w + 10"
      using c1 by (simp add: sleep_def ELECTROLYTE_PRESENCE_CHECK_TIMEOUT_def)
    have nover: "\<not> (refilling \<and> level_value expected_level < level_value level)"
      using le by auto
    have step: "wait_electrolyte_level_loop mc expected_level timeout refilling wait_until w =
                wait_electrolyte_level_loop mc expected_level timeout refilling wait_until ?w2"
      by (rule wait_loop_again [OF True obs ne nover])
    have ih: "wait_electrolyte_level_loop mc expected_level timeout refilling wait_until ?w2 =
           (Inl (MaintenanceModeException (timeout_text expected_level timeout)),
            snd (wait_electrolyte_level_loop mc expected_level timeout refilling wait_until ?w2)) \<and>
         clock (snd (wait_electrolyte_level_loop mc expected_level timeout refilling wait_until ?w2))
           = (if clock ?w2 < wait_until
              then clock ?w2 + 10 * ((wait_until - clock ?w2 + 9) div 10)
              else clock ?w2)"
      by (rule "1.IH" [OF True obs [symmetric] refl ne nover "1.prems"])
    have "(if clock ?w2 < wait_until
              then clock ?w2 + 10 * ((wait_until - clock ?w2 + 9) div 10)
              else clock ?w2) = clock w + 10 * ((wait_until - clock w + 9) div 10)"
      unfolding c2 by (rule polls_arith [OF True])
    with ih True show ?thesis unfolding step by simp
  qed
qed


lemma ceil10_bound: "(t::int) \<le> 10 * ((t + 9) div 10)"
proof -
  have "10 * ((t + 9) div 10) + (t + 9) mod 10 = t + 9" by simp
  moreover have "(t + 9) mod 10 < 10" by simp
  ultimately show ?thesis by linarith
qed

text \<open>
  C6. \<^verbatim>\<open>_wait_electrolyte_level\<close> is a total function: its loop is defined with a
  termination proof, on the time left to the deadline. When the sensor never reports the
  expected level (and, during refilling, never a level above it), in whatever state it is
  asked, the call raises \<open>MaintenanceModeException\<close> with the text of the timeout; it
  does so once the deadline has passed, after one round of ten seconds for every started
  ten seconds of the timeout (and at once when the timeout is not positive).
\<close>

theorem wait_electrolyte_level_times_out:
  assumes "\<forall>w. \<exists>level w'. electrolyte_level mc True w = (Inr level, w') \<and>
              level \<noteq> expected_level \<and>
              (refilling \<longrightarrow> level_value level \<le> level_value expected_level)"
  shows "\<exists>w'. wait_electrolyte_level mc expected_level timeout refilling w =
           (Inl (MaintenanceModeException (timeout_text expected_level timeout)), w') \<and>
         clock w + timeout \<le> clock w' \<and>
         clock w' = (if 0 < timeout then clock w + 10 * ((timeout + 9) div 10) else clock w)"
proof -
  let ?w' = "snd (wait_electrolyte_level_loop mc expected_level timeout refilling
                    (clock w + timeout) w)"
  have run: "wait_electrolyte_level mc expected_level timeout refilling w =
           (Inl (MaintenanceModeException (timeout_text expected_level timeout)), ?w')"
    and clk: "clock ?w' = (if clock w < clock w + timeout
                           then clock w + 10 * ((clock w + timeout - clock w + 9) div 10)
                           else clock w)"
    using wait_loop_times_out [OF assms, of timeout "clock w + timeout" w]
    unfolding wait_electrolyte_level_def by blast+
  have exact: "clock ?w' = (if 0 < timeout then clock w + 10 * ((timeout + 9) div 10)
                            else clock w)"
    unfolding clk by simp
  have "clock w + timeout \<le> clock ?w'"
    unfolding exact using ceil10_bound [of timeout] by simp
  with run exact show ?thesis by blast
qed

text \<open>
  The scenario of the specification: waiting for \<open>EMPTY\<close> for one second with a sensor
  that always reports \<open>MEDIUM\<close>.
\<close>

definition medium_client :: modbus_client where
  "medium_client = scripted_client [(7002, [[1]]), (7003, [[1]]), (7000, [[0]]), (7001, [[0]])]"

lemma medium_client_level:
  "electrolyte_level medium_client True w =
     (Inr MEDIUM, snd (electrolyte_level medium_client True w))"
  by (simp add: medium_client_def level_simps io_simps client_simps Let_def)

theorem wait_electrolyte_level_times_out_witness:
  "(\<forall>w. fst (electrolyte_level medium_client True w) = Inr MEDIUM) \<and>
   fst (wait_electrolyte_level medium_client EMPTY 1 False (start [])) =
     Inl (MaintenanceModeException ''Failed to wait for EMPTY level during 0 minutes.'') \<and>
   clock (snd (wait_electrolyte_level medium_client EMPTY 1 False (start []))) = 10"
proof -
  have always: "\<forall>w. fst (electrolyte_level medium_client True w) = Inr MEDIUM"
  proof
    fix w
    show "fst (electrolyte_level medium_client True w) = Inr MEDIUM"
      by (subst medium_client_level) simp
  qed
  have never: "\<forall>w. \<exists>level w'. electrolyte_level medium_client True w = (Inr level, w') \<and>
              level \<noteq> EMPTY \<and> (False \<longrightarrow> level_value level \<le> level_value EMPTY)"
  proof
    fix w
    have "electrolyte_level medium_client True w =
            (Inr MEDIUM, snd (electrolyte_level medium_client True w)) \<and>
          MEDIUM \<noteq> EMPTY \<and> (False \<longrightarrow> level_value MEDIUM \<le> level_value EMPTY)"
      using medium_client_level [of w] by simp
    then show "\<exists>level w'. electrolyte_level medium_client True w = (Inr level, w') \<and>
              level \<noteq> EMPTY \<and> (False \<longrightarrow> level_value level \<le> level_value EMPTY)"
      by (intro exI)
  qed
  obtain w' where
    run: "wait_electrolyte_level medium_client EMPTY 1 False (start []) =
            (Inl (MaintenanceModeException (timeout_text EMPTY 1)), w')"
    and clk: "clock w' = (if (0::int) < 1 then clock (start []) + 10 * (((1::int) + 9) div 10)
                          else clock (start []))"
    using wait_electrolyte_level_times_out [OF never, of 1 "start []"] by blast
  have msg: "timeout_text EMPTY 1 = ''Failed to wait for EMPTY level during 0 minutes.''"
    by (simp add: timeout_text_def str_int_def str_nat.simps)
  have "clock w' = 10" using clk by (simp add: start_def)
  with run msg always show ?thesis by simp
qed

section \<open>The events a function can add to the trace\<close>

text \<open>
  Every event has a kind: a heading of one of the three phases (the banner the phase
  prints when it starts), any other text, a read of an input or of a holding register, a
  write to a holding register, a sleep, a line of input. \<open>emits ks m\<close> says that
  \<open>m\<close>, from any state and whether it returns or raises, only adds events of the kinds
  \<open>ks\<close> to the trace and changes nothing of what was there.
\<close>

datatype phase = Draining | Flushing | Refilling

datatype kind =
    Text
  | Heading phase
  | InputRegister nat
  | HoldingRegister nat
  | Write nat
  | Pause
  | Line

definition phase_of_text :: "string \<Rightarrow> phase option" where
  "phase_of_text s =
     (if s = DRAINING_BANNER @ ''\<newline>'' then Some Draining
      else if s = FLUSHING_BANNER @ ''\<newline>'' then Some Flushing
      else if s = REFILLING_BANNER @ ''\<newline>'' then Some Refilling
      else None)"

fun kind_of :: "event \<Rightarrow> kind" where
  "kind_of (Print s) = (case phase_of_text s of Some p \<Rightarrow> Heading p | None \<Rightarrow> Text)"
| "kind_of (PrintPressureBounds _ _ _) = Text"
| "kind_of (ReadInput a _ _) = InputRegister a"
| "kind_of (ReadHolding a _ _) = HoldingRegister a"
| "kind_of (WriteSingle a _) = Write a"
| "kind_of (Sleep _) = Pause"
| "kind_of (Input _) = Line"

definition extends :: "kind list \<Rightarrow> world \<Rightarrow> world \<Rightarrow> bool" where
  "extends ks w w' = (\<exists>es. trace w' = trace w @ es \<and> list_all (\<lambda>e. kind_of e \<in> set ks) es)"

definition emits :: "kind list \<Rightarrow> 'a io \<Rightarrow> bool" where
  "emits ks m = (\<forall>w. extends ks w (snd (m w)))"

named_theorems emits_intros

lemma extends_refl: "extends ks w w"
  by (simp add: extends_def)

lemma extends_same: "trace w' = trace w \<Longrightarrow> extends ks w w'"
  by (simp add: extends_def)

lemma extends_trans:
  assumes "extends ks w w1" and "extends ks w1 w2"
  shows "extends ks w w2"
proof -
  obtain es1 where es1: "trace w1 = trace w @ es1" "list_all (\<lambda>e. kind_of e \<in> set ks) es1"
    using assms(1) unfolding extends_def by blast
  obtain es2 where es2: "trace w2 = trace w1 @ es2" "list_all (\<lambda>e. kind_of e \<in> set ks) es2"
    using assms(2) unfolding extends_def by blast
  have "trace w2 = trace w @ (es1 @ es2)" using es1 es2 by simp
  moreover have "list_all (\<lambda>e. kind_of e \<in> set ks) (es1 @ es2)" using es1 es2 by simp
  ultimately show ?thesis unfolding extends_def by blast
qed

lemma extends_event:
  "kind_of e \<in> set ks \<Longrightarrow> trace w' = trace w @ [e] \<Longrightarrow> extends ks w w'"
  by (simp add: extends_def)

lemma emitsI: "(\<And>w. extends ks w (snd (m w))) \<Longrightarrow> emits ks m"
  by (simp add: emits_def)

lemma emitsD: "emits ks m \<Longrightarrow> extends ks w (snd (m w))"
  by (simp add: emits_def)

lemma emitsD2: "emits ks m \<Longrightarrow> m w = (r, w') \<Longrightarrow> extends ks w w'"
  using emitsD [of ks m w] by simp

lemma emits_return [emits_intros]: "emits ks (io_return x)"
  by (rule emitsI) (simp add: io_return_def extends_refl)

lemma emits_raise [emits_intros]: "emits ks (io_raise e)"
  by (rule emitsI) (simp add: io_raise_def extends_refl)

lemma emits_lift [emits_intros]: "emits ks (io_lift r)"
  by (rule emitsI) (simp add: io_lift_def extends_refl)

lemma emits_bind [emits_intros]:
  assumes "emits ks m" and "\<And>x. emits ks (f x)"
  shows "emits ks (io_bind m f)"
proof (rule emitsI)
  fix w
  obtain r w1 where m: "m w = (r, w1)" by (cases "m w")
  have e1: "extends ks w w1" by (rule emitsD2 [OF assms(1) m])
  show "extends ks w (snd (io_bind m f w))"
  proof (cases r)
    case (Inl e)
    with m e1 show ?thesis by (simp add: io_bind_def)
  next
    case (Inr x)
    have "extends ks w1 (snd (f x w1))" by (rule emitsD [OF assms(2)])
    with e1 have "extends ks w (snd (f x w1))" by (rule extends_trans)
    with m Inr show ?thesis by (simp add: io_bind_def)
  qed
qed

lemma emits_seq [emits_intros]:
  assumes "emits ks m" and "emits ks n"
  shows "emits ks (io_seq m n)"
  unfolding io_seq_def using assms by (intro emits_bind)

lemma emits_block_Nil [emits_intros]: "emits ks (io_block [])"
  by (simp add: emits_return)

lemma emits_block_Cons [emits_intros]:
  assumes "emits ks m" and "emits ks (io_block ms)"
  shows "emits ks (io_block (m # ms))"
  using assms by (simp add: emits_seq)

lemma emits_if [emits_intros]:
  assumes "c \<Longrightarrow> emits ks a" and "\<not> c \<Longrightarrow> emits ks b"
  shows "emits ks (if c then a else b)"
  using assms by simp

lemma emits_emit [emits_intros]: "kind_of e \<in> set ks \<Longrightarrow> emits ks (emit e)"
  by (rule emitsI) (simp add: emit_def extends_def)

lemma emits_try_except [emits_intros]:
  assumes "emits ks body" and "\<And>e. emits ks (handler e)"
  shows "emits ks (try_except body caught handler)"
proof (rule emitsI)
  fix w
  obtain r w1 where m: "body w = (r, w1)" by (cases "body w")
  have e1: "extends ks w w1" by (rule emitsD2 [OF assms(1) m])
  have "extends ks w (snd (handler e w1))" for e
    using e1 emitsD [OF assms(2)] by (rule extends_trans)
  with m e1 show "extends ks w (snd (try_except body caught handler w))"
    by (simp add: try_except_def split: sum.splits)
qed

lemma emits_try_except_else [emits_intros]:
  assumes "emits ks body" and "\<And>e. emits ks (handler e)" and "emits ks orelse"
  shows "emits ks (try_except_else body caught handler orelse)"
proof (rule emitsI)
  fix w
  obtain r w1 where m: "body w = (r, w1)" by (cases "body w")
  have e1: "extends ks w w1" by (rule emitsD2 [OF assms(1) m])
  have "extends ks w (snd (handler e w1))" for e
    using e1 emitsD [OF assms(2)] by (rule extends_trans)
  moreover have "extends ks w (snd (orelse w1))"
    using e1 emitsD [OF assms(3)] by (rule extends_trans)
  ultimately show "extends ks w (snd (try_except_else body caught handler orelse w))"
    using m e1 by (simp add: try_except_else_def split: sum.splits)
qed

lemma emits_try_finally [emits_intros]:
  assumes "emits ks body" and "emits ks final"
  shows "emits ks (try_finally body final)"
proof (rule emitsI)
  fix w
  obtain r w1 where m: "body w = (r, w1)" by (cases "body w")
  have e1: "extends ks w w1" by (rule emitsD2 [OF assms(1) m])
  have "extends ks w (snd (final w1))"
    using e1 emitsD [OF assms(2)] by (rule extends_trans)
  with m show "extends ks w (snd (try_finally body final w))"
    by (auto simp: try_finally_def split: prod.splits sum.splits)
qed

lemma emits_case_prod [emits_intros]:
  assumes "\<And>a b. emits ks (f a b)"
  shows "emits ks (case p of (a, b) \<Rightarrow> f a b)"
  using assms by (cases p) simp

subsection \<open>Printing\<close>

lemma take2: "take 2 (a # b # s) = [a, b]"
  by (simp add: numeral_2_eq_2)

lemma banner_starts:
  "take 2 (DRAINING_BANNER @ t) = [CHR 0x0A, CHR ''='']"
  "take 2 (FLUSHING_BANNER @ t) = [CHR 0x0A, CHR ''='']"
  "take 2 (REFILLING_BANNER @ t) = [CHR 0x0A, CHR ''='']"
  by (simp_all add: DRAINING_BANNER_def FLUSHING_BANNER_def REFILLING_BANNER_def RULE_def take2)

declare kind_of.simps(1) [simp del]

lemma plain_text:
  assumes "take 2 s \<noteq> [CHR 0x0A, CHR ''='']"
  shows "kind_of (Print s) = Text"
proof -
  have "s \<noteq> DRAINING_BANNER @ t" "s \<noteq> FLUSHING_BANNER @ t" "s \<noteq> REFILLING_BANNER @ t" for t
    using assms banner_starts by metis+
  then show ?thesis by (simp add: phase_of_text_def kind_of.simps(1))
qed

lemma heading_text:
  "kind_of (Print (DRAINING_BANNER @ ''\<newline>'')) = Heading Draining"
  "kind_of (Print (FLUSHING_BANNER @ ''\<newline>'')) = Heading Flushing"
  "kind_of (Print (REFILLING_BANNER @ ''\<newline>'')) = Heading Refilling"
  by (simp_all add: phase_of_text_def kind_of.simps(1) DRAINING_BANNER_def FLUSHING_BANNER_def
        REFILLING_BANNER_def)

lemma coloured:
  "kind_of (Print (text_color s CYAN @ t)) = Text"
  "kind_of (Print (text_color s GREEN @ t)) = Text"
  "kind_of (Print (text_color s RED @ t)) = Text"
  "kind_of (Print (text_color s YELLOW @ t)) = Text"
  by (rule plain_text, simp add: text_color_def CYAN_def GREEN_def RED_def YELLOW_def take2)+

lemmas kind_simps = take2 banner_starts plain_text heading_text coloured

lemma emits_print [emits_intros]:
  "kind_of (Print (s @ ''\<newline>'')) \<in> set ks \<Longrightarrow> emits ks (print s)"
  unfolding print_def by (rule emits_emit)

lemma emits_print_with [emits_intros]:
  assumes "\<And>w. kind_of (Print (f w @ ''\<newline>'')) \<in> set ks"
  shows "emits ks (\<lambda>w. print (f w) w)"
  by (rule emitsI) (use assms in \<open>simp add: print_def emit_def extends_def\<close>)

lemma emits_print_cyan [emits_intros]: "Text \<in> set ks \<Longrightarrow> emits ks (print_cyan s)"
  unfolding print_cyan_def by (intro emits_print) (simp add: kind_simps)

lemma emits_print_green [emits_intros]: "Text \<in> set ks \<Longrightarrow> emits ks (print_green s)"
  unfolding print_green_def by (intro emits_print) (simp add: kind_simps)

lemma emits_print_red [emits_intros]: "Text \<in> set ks \<Longrightarrow> emits ks (print_red s)"
  unfolding print_red_def by (intro emits_print) (simp add: kind_simps)

lemma emits_print_yellow [emits_intros]: "Text \<in> set ks \<Longrightarrow> emits ks (print_yellow s)"
  unfolding print_yellow_def by (intro emits_print) (simp add: kind_simps)

subsection \<open>Registers, the clock and the operator\<close>

lemma emits_read_input_registers [emits_intros]:
  "InputRegister a \<in> set ks \<Longrightarrow> emits ks (read_input_registers mc a n)"
  by (rule emitsI) (simp add: read_input_registers_def Let_def extends_def)

lemma emits_read_holding_registers [emits_intros]:
  "HoldingRegister a \<in> set ks \<Longrightarrow> emits ks (read_holding_registers mc a n)"
  by (rule emitsI) (simp add: read_holding_registers_def Let_def extends_def)

lemma emits_sleep [emits_intros]: "Pause \<in> set ks \<Longrightarrow> emits ks (sleep s)"
  by (rule emitsI) (simp add: sleep_def extends_def)

lemma emits_write_single_register [emits_intros]:
  "Write a \<in> set ks \<Longrightarrow> Pause \<in> set ks \<Longrightarrow> emits ks (write_single_register mc a v)"
  unfolding write_single_register_def by (intro emits_intros) simp_all

lemma emits_subscript0 [emits_intros]: "emits ks (subscript0 r)"
  unfolding subscript0_def by (auto split: option.splits list.splits intro: emits_intros)

lemma emits_subscript0_list [emits_intros]: "emits ks (subscript0_list xs)"
  unfolding subscript0_list_def by (auto split: list.splits intro: emits_intros)

lemma emits_word_list_to_long [emits_intros]: "emits ks (word_list_to_long r)"
  unfolding word_list_to_long_def by (auto split: option.splits intro: emits_intros)

lemma emits_input_line [emits_intros]: "Line \<in> set ks \<Longrightarrow> emits ks input_line"
  by (rule emitsI) (simp add: input_line_def extends_def split: list.splits)


lemma emits_case_option [emits_intros]:
  assumes "emits ks a" and "\<And>x. emits ks (f x)"
  shows "emits ks (case r of None \<Rightarrow> a | Some x \<Rightarrow> f x)"
  using assms by (cases r) simp_all

lemma extends_wait_confirmation_loop:
  assumes "Line \<in> set ks" and "Text \<in> set ks"
  shows "extends ks w (snd (wait_confirmation_loop w))"
proof (induction w rule: wait_confirmation_loop.induct)
  case (1 w)
  show ?case
  proof (cases "stdin w")
    case Nil
    then show ?thesis
      by (subst wait_confirmation_loop.simps) (simp add: input_line_def extends_refl)
  next
    case (Cons line rest)
    let ?w1 = "w\<lparr>stdin := rest, trace := trace w @ [Input line]\<rparr>"
    have inp: "input_line w = (Inr line, ?w1)" using Cons by (simp add: input_line_def)
    have e1: "extends ks w ?w1" using assms(1) by (intro extends_event [of "Input line"]) simp_all
    show ?thesis
    proof (cases "upper line \<noteq> INPUT_CONFIRMATION")
      case False
      with inp e1 show ?thesis by (subst wait_confirmation_loop.simps) simp
    next
      case True
      let ?w2 = "snd (print_yellow ''Wrong confirmation'' ?w1)"
      have "extends ks ?w1 ?w2" by (intro emitsD emits_print_yellow assms)
      with e1 have "extends ks w ?w2" by (rule extends_trans)
      moreover have "extends ks ?w2 (snd (wait_confirmation_loop ?w2))"
        by (rule "1.IH" [OF inp [symmetric] refl True])
      ultimately have "extends ks w (snd (wait_confirmation_loop ?w2))" by (rule extends_trans)
      with inp True show ?thesis by (subst wait_confirmation_loop.simps) simp
    qed
  qed
qed

lemma emits_wait_confirmation_loop [emits_intros]:
  "Line \<in> set ks \<Longrightarrow> Text \<in> set ks \<Longrightarrow> emits ks wait_confirmation_loop"
  by (rule emitsI) (rule extends_wait_confirmation_loop)

lemma emits_wait_confirmation [emits_intros]:
  assumes "kind_of (Print (prompt @ ''\<newline>'')) \<in> set ks" and "Line \<in> set ks"
    and "Text \<in> set ks"
  shows "emits ks (wait_confirmation prompt)"
  unfolding wait_confirmation_def by (intro emits_intros assms)

lemma emits_read_switch [emits_intros]:
  assumes "set [InputRegister (input_address reg)] \<subseteq> set ks"
  shows "emits ks (read_switch mc reg)"
  unfolding read_switch_def
  by (intro emits_intros) (use assms in \<open>auto simp: kind_simps\<close>)

lemma emits_read_switches [emits_intros]:
  assumes "set [InputRegister 7000, InputRegister 7001, InputRegister 7002, InputRegister 7003] \<subseteq> set ks"
  shows "emits ks (read_switches mc)"
  unfolding read_switches_def low_level_switch_def medium_level_switch_def high_level_switch_def very_high_level_switch_def
  by (intro emits_intros) (use assms in \<open>auto simp: kind_simps\<close>)

lemma emits_electrolyte_level [emits_intros]:
  assumes "set [Text, InputRegister 7000, InputRegister 7001, InputRegister 7002, InputRegister 7003] \<subseteq> set ks"
  shows "emits ks (electrolyte_level mc logging)"
  unfolding electrolyte_level_def
  by (intro emits_intros) (use assms in \<open>auto simp: kind_simps\<close>)

lemma emits_decode_events [emits_intros]:
  assumes "set [InputRegister (input_address register)] \<subseteq> set ks"
  shows "emits ks (decode_events mc register event_type)"
  unfolding decode_events_def
  by (intro emits_intros) (use assms in \<open>auto simp: kind_simps\<close>)

lemma emits_decode_warnings [emits_intros]:
  assumes "set [InputRegister 768] \<subseteq> set ks"
  shows "emits ks (decode_warnings mc)"
  unfolding decode_warnings_def
  by (intro emits_intros) (use assms in \<open>auto simp: kind_simps\<close>)

lemma emits_decode_errors [emits_intros]:
  assumes "set [InputRegister 832] \<subseteq> set ks"
  shows "emits ks (decode_errors mc)"
  unfolding decode_errors_def
  by (intro emits_intros) (use assms in \<open>auto simp: kind_simps\<close>)

lemma emits_check_refilling_warnings [emits_intros]:
  assumes "set [Text, InputRegister 768] \<subseteq> set ks"
  shows "emits ks (check_refilling_warnings mc)"
  unfolding check_refilling_warnings_def
  by (intro emits_intros) (use assms in \<open>auto simp: kind_simps\<close>)

lemma emits_actual_state [emits_intros]:
  assumes "set [Text, InputRegister 1200] \<subseteq> set ks"
  shows "emits ks (actual_state mc)"
  unfolding actual_state_def
  by (intro emits_intros) (use assms in \<open>auto simp: kind_simps\<close>)

lemma emits_actual_refilling_state [emits_intros]:
  assumes "set [InputRegister 1201] \<subseteq> set ks"
  shows "emits ks (actual_refilling_state mc)"
  unfolding actual_refilling_state_def
  by (intro emits_intros) (use assms in \<open>auto simp: kind_simps\<close>)

lemma emits_actual_water_inlet_pressure [emits_intros]:
  assumes "set [InputRegister 7516] \<subseteq> set ks"
  shows "emits ks (actual_water_inlet_pressure mc)"
  unfolding actual_water_inlet_pressure_def
  by (intro emits_intros) (use assms in \<open>auto simp: kind_simps\<close>)

lemma emits_actual_refilling_mixing_time [emits_intros]:
  assumes "set [HoldingRegister 4418] \<subseteq> set ks"
  shows "emits ks (actual_refilling_mixing_time mc)"
  unfolding actual_refilling_mixing_time_def
  by (intro emits_intros) (use assms in \<open>auto simp: kind_simps\<close>)

lemma emits_actual_refilling_min_water_pressure [emits_intros]:
  assumes "set [HoldingRegister 4400] \<subseteq> set ks"
  shows "emits ks (actual_refilling_min_water_pressure mc)"
  unfolding actual_refilling_min_water_pressure_def
  by (intro emits_intros) (use assms in \<open>auto simp: kind_simps\<close>)

lemma emits_actual_refilling_max_water_pressure [emits_intros]:
  assumes "set [HoldingRegister 4402] \<subseteq> set ks"
  shows "emits ks (actual_refilling_max_water_pressure mc)"
  unfolding actual_refilling_max_water_pressure_def
  by (intro emits_intros) (use assms in \<open>auto simp: kind_simps\<close>)

lemma emits_toggle_maintenance [emits_intros]:
  assumes "set [Write 1013, Pause] \<subseteq> set ks"
  shows "emits ks (toggle_maintenance mc enable)"
  unfolding toggle_maintenance_def
  by (intro emits_intros) (use assms in \<open>auto simp: kind_simps\<close>)

lemma emits_toggle_flushing [emits_intros]:
  assumes "set [Write 1015, Pause] \<subseteq> set ks"
  shows "emits ks (toggle_flushing mc enable)"
  unfolding toggle_flushing_def
  by (intro emits_intros) (use assms in \<open>auto simp: kind_simps\<close>)

lemma emits_flushing_on [emits_intros]:
  assumes "set [Text, Write 1015, Pause] \<subseteq> set ks"
  shows "emits ks (flushing_on mc)"
  unfolding flushing_on_def
  by (intro emits_intros) (use assms in \<open>auto simp: kind_simps\<close>)

lemma emits_maintenance_on [emits_intros]:
  assumes "set [Text, Write 1013, Pause, InputRegister 1200] \<subseteq> set ks"
  shows "emits ks (maintenance_on mc initial_state)"
  unfolding maintenance_on_def
  by (intro emits_intros) (use assms in \<open>auto simp: kind_simps\<close>)

lemma emits_maintenance_off [emits_intros]:
  assumes "set [Text, Write 1013, Pause, InputRegister 1200] \<subseteq> set ks"
  shows "emits ks (maintenance_off mc)"
  unfolding maintenance_off_def
  by (intro emits_intros) (use assms in \<open>auto simp: kind_simps\<close>)

lemma emits_check_refilling_state [emits_intros]:
  assumes "set [Text, InputRegister 1201] \<subseteq> set ks"
  shows "emits ks (check_refilling_state mc expected)"
  unfolding check_refilling_state_def
  by (intro emits_intros) (use assms in \<open>auto simp: kind_simps\<close>)


lemma extends_wait_electrolyte_level_loop:
  assumes "set [Text, Pause, InputRegister 7000, InputRegister 7001, InputRegister 7002,
                InputRegister 7003] \<subseteq> set ks"
  shows "extends ks w
           (snd (wait_electrolyte_level_loop mc expected_level timeout refilling wait_until w))"
proof (induction mc expected_level timeout refilling wait_until w
       rule: wait_electrolyte_level_loop.induct)
  case (1 mc expected_level timeout refilling wait_until w)
  obtain r w1 where obs: "electrolyte_level mc True w = (r, w1)"
    by (cases "electrolyte_level mc True w")
  have e1: "extends ks w w1"
    by (rule emitsD2 [OF emits_electrolyte_level obs]) (use assms in auto)
  show ?case
  proof (cases "clock w < wait_until")
    case False
    then show ?thesis
      by (subst wait_electrolyte_level_loop.simps) (simp add: extends_refl)
  next
    case True
    show ?thesis
    proof (cases r)
      case (Inl e)
      with True obs e1 show ?thesis by (subst wait_electrolyte_level_loop.simps) simp
    next
      case (Inr level)
      let ?w2 = "snd (sleep ELECTROLYTE_PRESENCE_CHECK_TIMEOUT w1)"
      show ?thesis
      proof (cases "level = expected_level
                    \<or> (refilling \<and> level_value expected_level < level_value level)")
        case True
        with \<open>clock w < wait_until\<close> obs Inr e1 show ?thesis
          by (subst wait_electrolyte_level_loop.simps) auto
      next
        case False
        have "extends ks w1 ?w2"
          by (intro emitsD emits_sleep) (use assms in auto)
        with e1 have "extends ks w ?w2" by (rule extends_trans)
        moreover have "extends ks ?w2
           (snd (wait_electrolyte_level_loop mc expected_level timeout refilling wait_until ?w2))"
          using "1.IH" [OF \<open>clock w < wait_until\<close> obs [symmetric] Inr] False by blast
        ultimately have "extends ks w
           (snd (wait_electrolyte_level_loop mc expected_level timeout refilling wait_until ?w2))"
          by (rule extends_trans)
        with \<open>clock w < wait_until\<close> obs Inr False show ?thesis
          by (subst wait_electrolyte_level_loop.simps) auto
      qed
    qed
  qed
qed

lemma emits_wait_electrolyte_level [emits_intros]:
  assumes "set [Text, Pause, InputRegister 7000, InputRegister 7001, InputRegister 7002,
                InputRegister 7003] \<subseteq> set ks"
  shows "emits ks (wait_electrolyte_level mc expected_level timeout refilling)"
  unfolding wait_electrolyte_level_def
  by (rule emitsI) (rule extends_wait_electrolyte_level_loop [OF assms])

lemma extends_wait_refilling_state_loop:
  assumes "set [Pause, InputRegister 1201] \<subseteq> set ks"
  shows "extends ks w (snd (wait_refilling_state_loop mc expected_state timeout wait_until w))"
proof (induction mc expected_state timeout wait_until w rule: wait_refilling_state_loop.induct)
  case (1 mc expected_state timeout wait_until w)
  obtain r w1 where obs: "actual_refilling_state mc w = (r, w1)"
    by (cases "actual_refilling_state mc w")
  have e1: "extends ks w w1"
    by (rule emitsD2 [OF emits_actual_refilling_state obs]) (use assms in auto)
  show ?case
  proof (cases "clock w < wait_until")
    case False
    then show ?thesis
      by (subst wait_refilling_state_loop.simps) (simp add: extends_refl)
  next
    case True
    show ?thesis
    proof (cases r)
      case (Inl e)
      with True obs e1 show ?thesis by (subst wait_refilling_state_loop.simps) simp
    next
      case (Inr state)
      let ?w2 = "snd (sleep REFILLING_STATE_CHECK_TIMEOUT w1)"
      show ?thesis
      proof (cases "state = expected_state")
        case True
        with \<open>clock w < wait_until\<close> obs Inr e1 show ?thesis
          by (subst wait_refilling_state_loop.simps) auto
      next
        case False
        have "extends ks w1 ?w2"
          by (intro emitsD emits_sleep) (use assms in auto)
        with e1 have "extends ks w ?w2" by (rule extends_trans)
        moreover have "extends ks ?w2
           (snd (wait_refilling_state_loop mc expected_state timeout wait_until ?w2))"
          by (rule "1.IH" [OF \<open>clock w < wait_until\<close> obs [symmetric] Inr False])
        ultimately have "extends ks w
           (snd (wait_refilling_state_loop mc expected_state timeout wait_until ?w2))"
          by (rule extends_trans)
        with \<open>clock w < wait_until\<close> obs Inr False show ?thesis
          by (subst wait_refilling_state_loop.simps) auto
      qed
    qed
  qed
qed

lemma emits_wait_refilling_state [emits_intros]:
  assumes "set [Pause, InputRegister 1201] \<subseteq> set ks"
  shows "emits ks (wait_refilling_state mc expected_state timeout)"
  unfolding wait_refilling_state_def
  by (rule emitsI) (rule extends_wait_refilling_state_loop [OF assms])

lemma emits_handle_very_high_electrolyte_level [emits_intros]:
  assumes "set [Text, Line, Pause, InputRegister 7000, InputRegister 7001, InputRegister 7002, InputRegister 7003] \<subseteq> set ks"
  shows "emits ks (handle_very_high_electrolyte_level mc el_21)"
  unfolding handle_very_high_electrolyte_level_def
  by (intro emits_intros) (use assms in \<open>auto simp: kind_simps INPUT_CONFIRMATION_def\<close>)

lemma emits_perform_draining [emits_intros]:
  assumes "set [Heading Draining, Text, Line, Pause, InputRegister 1201, InputRegister 7000, InputRegister 7001, InputRegister 7002, InputRegister 7003] \<subseteq> set ks"
  shows "emits ks (perform_draining mc)"
  unfolding perform_draining_def
  by (intro emits_intros) (use assms in \<open>auto simp: kind_simps \<close>)

lemma emits_water_pipe_round:
  assumes "set [InputRegister 7516, Heading Draining, Text, Line, Pause, InputRegister 1201, InputRegister 7000, InputRegister 7001, InputRegister 7002, InputRegister 7003] \<subseteq> set ks"
  shows "emits ks (water_pipe_round mc expect_no_electrolyte min_pressure max_pressure pressure_ok electrolyte_ok)"
  unfolding water_pipe_round_def
  by (intro emits_intros) (use assms in \<open>auto simp: kind_simps \<close>)

lemma emits_water_pipe_round_pressure_only:
  assumes "set [Text, InputRegister 7516] \<subseteq> set ks"
  shows "emits ks (water_pipe_round mc False min_pressure max_pressure pressure_ok electrolyte_ok)"
  unfolding water_pipe_round_def
  by (intro emits_intros) (use assms in \<open>auto simp: kind_simps \<close>)

lemma extends_water_pipe_loop:
  assumes round: "\<And>pressure_ok electrolyte_ok.
      emits ks (water_pipe_round mc expect_no_electrolyte min_pressure max_pressure
                  pressure_ok electrolyte_ok)"
    and "Line \<in> set ks" and "Text \<in> set ks"
  shows "extends ks w
           (snd (water_pipe_loop mc expect_no_electrolyte attempts min_pressure max_pressure
                   water_pipe_connect_attempts pressure_ok electrolyte_ok w))"
  using round
proof (induction mc expect_no_electrolyte attempts min_pressure max_pressure
         water_pipe_connect_attempts pressure_ok electrolyte_ok w
       rule: water_pipe_loop.induct)
  case (1 mc expect_no_electrolyte attempts min_pressure max_pressure
          water_pipe_connect_attempts pressure_ok electrolyte_ok w)
  let ?loop = "water_pipe_loop mc expect_no_electrolyte attempts min_pressure max_pressure"
  let ?prompt = "WATER_PIPE_PROMPT"
  obtain r w1 where rnd: "water_pipe_round mc expect_no_electrolyte min_pressure max_pressure
                            pressure_ok electrolyte_ok w = (r, w1)"
    by (cases "water_pipe_round mc expect_no_electrolyte min_pressure max_pressure
                 pressure_ok electrolyte_ok w")
  have e1: "extends ks w w1" by (rule emitsD2 [OF "1.prems" rnd])
  show ?case
  proof (cases "water_pipe_connect_attempts < attempts")
    case False
    then show ?thesis by (subst water_pipe_loop.simps) (simp add: extends_refl)
  next
    case True
    show ?thesis
    proof (cases r)
      case (Inl e)
      with True rnd e1 show ?thesis by (subst water_pipe_loop.simps) simp
    next
      case (Inr flags)
      obtain p e where flags: "flags = (p, e)" by (cases flags)
      show ?thesis
      proof (cases "p \<and> e")
        case True
        with \<open>water_pipe_connect_attempts < attempts\<close> rnd Inr flags e1 show ?thesis
          by (subst water_pipe_loop.simps) simp
      next
        case False
        obtain c w2 where conf: "wait_confirmation ?prompt w1 = (c, w2)"
          by (cases "wait_confirmation ?prompt w1")
        have "extends ks w1 w2"
          by (rule emitsD2 [OF emits_wait_confirmation conf])
             (use assms(2,3) in \<open>simp_all add: kind_simps WATER_PIPE_PROMPT_def\<close>)
        with e1 have e2: "extends ks w w2" by (rule extends_trans)
        show ?thesis
        proof (cases c)
          case (Inl x)
          with \<open>water_pipe_connect_attempts < attempts\<close> rnd Inr flags False conf e2
          show ?thesis by (subst water_pipe_loop.simps) auto
        next
          case (Inr u)
          have "extends ks w2 (snd (?loop (water_pipe_connect_attempts + 1) p e w2))"
            using "1.IH" [OF \<open>water_pipe_connect_attempts < attempts\<close> rnd [symmetric]
                            \<open>r = Inr flags\<close> flags [symmetric] False conf [symmetric] Inr "1.prems"]
            by simp
          with e2 have "extends ks w (snd (?loop (water_pipe_connect_attempts + 1) p e w2))"
            by (rule extends_trans)
          with \<open>water_pipe_connect_attempts < attempts\<close> rnd \<open>r = Inr flags\<close> flags False conf Inr
          show ?thesis by (subst water_pipe_loop.simps) auto
        qed
      qed
    qed
  qed
qed

lemma emits_water_pipe_loop:
  assumes "set [InputRegister 7516, Heading Draining, Text, Line, Pause, InputRegister 1201,
                InputRegister 7000, InputRegister 7001, InputRegister 7002, InputRegister 7003]
           \<subseteq> set ks"
  shows "emits ks (water_pipe_loop mc expect_no_electrolyte attempts min_pressure max_pressure
                     water_pipe_connect_attempts pressure_ok electrolyte_ok)"
  by (rule emitsI, rule extends_water_pipe_loop, rule emits_water_pipe_round)
     (use assms in auto)

lemma emits_water_pipe_loop_pressure_only:
  assumes "set [InputRegister 7516, Text, Line] \<subseteq> set ks"
  shows "emits ks (water_pipe_loop mc False attempts min_pressure max_pressure
                     water_pipe_connect_attempts pressure_ok electrolyte_ok)"
  by (rule emitsI, rule extends_water_pipe_loop, rule emits_water_pipe_round_pressure_only)
     (use assms in auto)

lemma emits_check_water_pipe_connection:
  assumes "set [InputRegister 7516, HoldingRegister 4400, HoldingRegister 4402, Heading Draining, Text, Line, Pause, InputRegister 1201, InputRegister 7000, InputRegister 7001, InputRegister 7002, InputRegister 7003] \<subseteq> set ks"
  shows "emits ks (check_water_pipe_connection mc expect_no_electrolyte attempts)"
  unfolding check_water_pipe_connection_def
  by (intro emits_intros emits_water_pipe_loop) (use assms in \<open>auto simp: kind_simps \<close>)

lemma emits_check_water_pipe_connection_pressure_only:
  assumes "set [InputRegister 7516, HoldingRegister 4400, HoldingRegister 4402, Text, Line] \<subseteq> set ks"
  shows "emits ks (check_water_pipe_connection mc False attempts)"
  unfolding check_water_pipe_connection_def
  by (intro emits_intros emits_water_pipe_loop_pressure_only) (use assms in \<open>auto simp: kind_simps \<close>)

lemma emits_wait_mixing [emits_intros]:
  assumes "set [HoldingRegister 4418, Pause, InputRegister 1201] \<subseteq> set ks"
  shows "emits ks (wait_mixing mc expected_state)"
  unfolding wait_mixing_def
  by (intro emits_intros ) (use assms in \<open>auto simp: kind_simps \<close>)

lemma emits_perform_flushing [emits_intros]:
  assumes "set [Heading Flushing, Write 1015, InputRegister 768, HoldingRegister 4418, InputRegister 7516, HoldingRegister 4400, HoldingRegister 4402, Heading Draining, Text, Line, Pause, InputRegister 1201, InputRegister 7000, InputRegister 7001, InputRegister 7002, InputRegister 7003] \<subseteq> set ks"
  shows "emits ks (perform_flushing mc)"
  unfolding perform_flushing_def
  by (intro emits_intros emits_check_water_pipe_connection) (use assms in \<open>auto simp: kind_simps INPUT_CONFIRMATION_def\<close>)

lemma emits_overfill_warning [emits_intros]:
  assumes "set [Text] \<subseteq> set ks"
  shows "emits ks (overfill_warning el_21)"
  unfolding overfill_warning_def
  by (intro emits_intros ) (use assms in \<open>auto simp: kind_simps \<close>)

lemma emits_perform_refilling [emits_intros]:
  assumes "set [Heading Refilling, Text, Line, Pause, InputRegister 1201, InputRegister 7000, InputRegister 7001, InputRegister 7002, InputRegister 7003] \<subseteq> set ks"
  shows "emits ks (perform_refilling mc el_21)"
  unfolding perform_refilling_def
  by (intro emits_intros ) (use assms in \<open>auto simp: kind_simps electrolyte_type_def raise_bag_text_def\<close>)

lemma emits_finish_refilling [emits_intros]:
  assumes "set [Text, Pause, InputRegister 1201, InputRegister 768, HoldingRegister 4418, InputRegister 7000, InputRegister 7001, InputRegister 7002, InputRegister 7003] \<subseteq> set ks"
  shows "emits ks (finish_refilling mc)"
  unfolding finish_refilling_def
  by (intro emits_intros ) (use assms in \<open>auto simp: kind_simps \<close>)

lemma emits_run_maintenance_21 [emits_intros]:
  assumes "set [Heading Draining, Write 1013, InputRegister 1200, InputRegister 768, Heading Refilling, Text, Line, Pause, InputRegister 1201, InputRegister 7000, InputRegister 7001, InputRegister 7002, InputRegister 7003] \<subseteq> set ks"
  shows "emits ks (run_maintenance_21 mc initial_state)"
  unfolding run_maintenance_21_def
  by (intro emits_intros ) (use assms in \<open>auto simp: kind_simps \<close>)

lemma emits_run_maintenance_4x_rest_without_flushing:
  assumes "set [Write 1013, InputRegister 1200, InputRegister 768, HoldingRegister 4418, InputRegister 7516, HoldingRegister 4400, HoldingRegister 4402, Heading Refilling, Text, Line, Pause, InputRegister 1201, InputRegister 7000, InputRegister 7001, InputRegister 7002, InputRegister 7003] \<subseteq> set ks"
  shows "emits ks (run_maintenance_4x_rest mc False)"
  unfolding run_maintenance_4x_rest_def
  by (intro emits_intros emits_check_water_pipe_connection_pressure_only) (use assms in \<open>auto simp: kind_simps \<close>)

lemma emits_run_maintenance_4x_rest:
  assumes "set [Heading Flushing, Heading Draining, Write 1015, Write 1013, InputRegister 1200, InputRegister 768, HoldingRegister 4418, InputRegister 7516, HoldingRegister 4400, HoldingRegister 4402, Heading Refilling, Text, Line, Pause, InputRegister 1201, InputRegister 7000, InputRegister 7001, InputRegister 7002, InputRegister 7003] \<subseteq> set ks"
  shows "emits ks (run_maintenance_4x_rest mc flushing_required)"
  unfolding run_maintenance_4x_rest_def
  by (intro emits_intros emits_check_water_pipe_connection_pressure_only) (use assms in \<open>auto simp: kind_simps \<close>)

lemma emits_run_maintenance_4x [emits_intros]:
  assumes "set [Heading Flushing, Heading Draining, Write 1015, Write 1013, InputRegister 1200, InputRegister 768, HoldingRegister 4418, InputRegister 7516, HoldingRegister 4400, HoldingRegister 4402, Heading Refilling, Text, Line, Pause, InputRegister 1201, InputRegister 7000, InputRegister 7001, InputRegister 7002, InputRegister 7003] \<subseteq> set ks"
  shows "emits ks (run_maintenance_4x mc initial_state)"
  unfolding run_maintenance_4x_def
  by (intro emits_intros emits_run_maintenance_4x_rest) (use assms in \<open>auto simp: kind_simps \<close>)

lemma emits_run_maintenance [emits_intros]:
  assumes "set [InputRegister 0, Heading Flushing, Heading Draining, Write 1015, Write 1013, InputRegister 1200, InputRegister 768, HoldingRegister 4418, InputRegister 7516, HoldingRegister 4400, HoldingRegister 4402, Heading Refilling, Text, Line, Pause, InputRegister 1201, InputRegister 7000, InputRegister 7001, InputRegister 7002, InputRegister 7003] \<subseteq> set ks"
  shows "emits ks (run_maintenance mc initial_state)"
  unfolding run_maintenance_def Let_def
  by (intro emits_intros ) (use assms in \<open>auto simp: kind_simps \<close>)

lemma emits_main_try [emits_intros]:
  assumes "set [InputRegister 0, Heading Flushing, Heading Draining, Write 1015, Write 1013, InputRegister 1200, InputRegister 768, HoldingRegister 4418, InputRegister 7516, HoldingRegister 4400, HoldingRegister 4402, Heading Refilling, Text, Line, Pause, InputRegister 1201, InputRegister 7000, InputRegister 7001, InputRegister 7002, InputRegister 7003] \<subseteq> set ks"
  shows "emits ks (main_try mc)"
  unfolding main_try_def
  by (intro emits_intros ) (use assms in \<open>auto simp: kind_simps \<close>)

lemma emits_main_except [emits_intros]:
  assumes "set [Text, InputRegister 832, InputRegister 768] \<subseteq> set ks"
  shows "emits ks (main_except mc e)"
  unfolding main_except_def
  by (intro emits_intros ) (use assms in \<open>auto simp: kind_simps \<close>)

lemma emits_main [emits_intros]:
  assumes "set [InputRegister 0, InputRegister 832, Heading Flushing, Heading Draining, Write 1015, Write 1013, InputRegister 1200, InputRegister 768, HoldingRegister 4418, InputRegister 7516, HoldingRegister 4400, HoldingRegister 4402, Heading Refilling, Text, Line, Pause, InputRegister 1201, InputRegister 7000, InputRegister 7001, InputRegister 7002, InputRegister 7003] \<subseteq> set ks"
  shows "emits ks (main mc)"
  unfolding main_def
  by (intro emits_intros ) (use assms in \<open>auto simp: kind_simps text_color_def RED_def\<close>)

section \<open>C9: the pre-flight gate\<close>

text \<open>
  The events between two states of one run, and the register writes among them.
\<close>

definition new_events :: "world \<Rightarrow> world \<Rightarrow> event list" where
  "new_events w w' = drop (length (trace w)) (trace w')"

fun is_write :: "event \<Rightarrow> bool" where
  "is_write (WriteSingle _ _) = True"
| "is_write _ = False"

lemma extends_new_events:
  assumes "extends ks w w'"
  shows "trace w' = trace w @ new_events w w'"
    and "list_all (\<lambda>e. kind_of e \<in> set ks) (new_events w w')"
  using assms unfolding extends_def new_events_def by auto

lemma no_write_kind: "is_write e \<Longrightarrow> \<exists>a. kind_of e = Write a"
  by (cases e) simp_all

lemma extends_no_writes:
  assumes "extends ks w w'" and "\<And>a. Write a \<notin> set ks"
  shows "list_all (\<lambda>e. \<not> is_write e) (new_events w w')"
proof -
  have "list_all (\<lambda>e. kind_of e \<in> set ks) (new_events w w')"
    by (rule extends_new_events(2) [OF assms(1)])
  then show ?thesis
    unfolding list_all_iff using assms(2) no_write_kind by metis
qed

text \<open>The state in which the checks start: the operator has answered the warning.\<close>

definition gate_start :: "world \<Rightarrow> string \<Rightarrow> string list \<Rightarrow> world" where
  "gate_start w answer rest =
     w\<lparr>stdin := rest,
       trace := trace w @
         [Print (text_color WARNING_TEXT RED), Input answer,
          Print (text_color ''Checking if Maintenance can be performed...'' YELLOW
                 @ ''\<newline>'')]\<rparr>"

lemma main_to_gate:
  assumes "stdin w = answer # rest" and "upper answer = INPUT_CONFIRMATION"
  shows "main mc w =
     try_except
       (io_bind (electrolyte_level mc True) (\<lambda>level.
          if level = VERY_HIGH then io_raise (SystemExit VERY_HIGH_EXIT)
          else
            io_bind (actual_state mc) (\<lambda>state.
              if state \<noteq> IDLE \<and> state \<noteq> MAINTENANCE_MODE
              then io_raise (SystemExit (state_exit state))
              else io_seq (print_yellow ''Conditions for Maintenance are OK'')
                          (run_maintenance mc state))))
       is_Exception (main_except mc)
       (gate_start w answer rest)"
  using assms
  by (simp add: main_def main_try_def io_seq_def io_bind_def emit_def input_line_def
        try_except_def print_yellow_def print_def gate_start_def)

lemma warning_is_text: "kind_of (Print (text_color s RED)) = Text"
  using coloured(3) [of s "[]"] by simp



lemmas level_run = electrolyte_level_def read_switches_def low_level_switch_def
  medium_level_switch_def high_level_switch_def very_high_level_switch_def read_switch_def
  level_of_switches_def search_top_switch_def ElectrolyteLevel_call_def print_cyan_def
  text_color_def

text \<open>
  Two devices that fail the gate: one with all four switches enabled, one that is empty
  but in state \<open>STEADY\<close>.
\<close>

definition very_high_client :: modbus_client where
  "very_high_client =
     scripted_client [(7002, [[1]]), (7003, [[1]]), (7000, [[1]]), (7001, [[1]])]"

definition steady_client :: modbus_client where
  "steady_client =
     scripted_client [(7002, [[0]]), (7003, [[0]]), (7000, [[0]]), (7001, [[0]]), (1200, [[3]])]"

lemma upper_yes: "upper ''yes'' = INPUT_CONFIRMATION"
  by (simp add: upper_def upper_char_def INPUT_CONFIRMATION_def char_of_def
        bit_iff_odd_drop_bit drop_bit_eq_div)

lemma very_high_client_level:
  "electrolyte_level very_high_client True w =
     (Inr VERY_HIGH, snd (electrolyte_level very_high_client True w))"
  by (simp add: very_high_client_def level_run io_simps client_simps Let_def)

lemma steady_client_level:
  "electrolyte_level steady_client True w =
     (Inr EMPTY, snd (electrolyte_level steady_client True w))"
  by (simp add: steady_client_def level_run io_simps client_simps Let_def)

lemma steady_client_state:
  "actual_state steady_client w = (Inr STEADY, snd (actual_state steady_client w))"
  by (simp add: steady_client_def actual_state_def State_call_def print_cyan_def io_simps
        client_simps Let_def)


section \<open>The exceptions a function can raise\<close>

text \<open>
  \<open>raises cs m\<close> says that \<open>m\<close>, from any state, raises nothing but exceptions of
  the classes \<open>cs\<close>.
\<close>

datatype exn_class =
    Maintenance
  | WaterPipe
  | HighLevel
  | Type_Error
  | Index_Error
  | Value_Error
  | Unicode_Error
  | EOF_Error
  | System_Exit

fun class_of :: "exn \<Rightarrow> exn_class" where
  "class_of (MaintenanceModeException _) = Maintenance"
| "class_of (WaterPipeException _) = WaterPipe"
| "class_of (HighElectrolyteLevelException _) = HighLevel"
| "class_of (TypeError _) = Type_Error"
| "class_of (IndexError _) = Index_Error"
| "class_of (ValueError _) = Value_Error"
| "class_of (UnicodeDecodeError _) = Unicode_Error"
| "class_of (EOFError _) = EOF_Error"
| "class_of (SystemExit _) = System_Exit"

definition raises :: "exn_class list \<Rightarrow> 'a io \<Rightarrow> bool" where
  "raises cs m = (\<forall>w e w'. m w = (Inl e, w') \<longrightarrow> class_of e \<in> set cs)"

named_theorems raises_intros

lemma raisesI: "(\<And>w e w'. m w = (Inl e, w') \<Longrightarrow> class_of e \<in> set cs) \<Longrightarrow> raises cs m"
  by (simp add: raises_def)

lemma raisesD: "raises cs m \<Longrightarrow> m w = (Inl e, w') \<Longrightarrow> class_of e \<in> set cs"
  unfolding raises_def by blast

lemma raises_return [raises_intros]: "raises cs (io_return x)"
  by (simp add: raises_def io_return_def)

lemma raises_raise [raises_intros]: "class_of e \<in> set cs \<Longrightarrow> raises cs (io_raise e)"
  by (simp add: raises_def io_raise_def)

lemma raises_lift_Inr [raises_intros]: "raises cs (io_lift (Inr x))"
  by (simp add: raises_def io_lift_def)

lemma raises_bind [raises_intros]:
  assumes "raises cs m" and "\<And>x. raises cs (f x)"
  shows "raises cs (io_bind m f)"
proof (rule raisesI)
  fix w e w'
  assume run: "io_bind m f w = (Inl e, w')"
  obtain r w1 where m: "m w = (r, w1)" by (cases "m w")
  show "class_of e \<in> set cs"
  proof (cases r)
    case (Inl x)
    with m run have "m w = (Inl e, w')" by (simp add: io_bind_def)
    then show ?thesis by (rule raisesD [OF assms(1)])
  next
    case (Inr x)
    with m run have "f x w1 = (Inl e, w')" by (simp add: io_bind_def)
    then show ?thesis by (rule raisesD [OF assms(2)])
  qed
qed

lemma raises_seq [raises_intros]:
  assumes "raises cs m" and "raises cs n"
  shows "raises cs (io_seq m n)"
  unfolding io_seq_def using assms by (intro raises_bind)

lemma raises_block_Nil [raises_intros]: "raises cs (io_block [])"
  by (simp add: raises_return)

lemma raises_block_Cons [raises_intros]:
  assumes "raises cs m" and "raises cs (io_block ms)"
  shows "raises cs (io_block (m # ms))"
  using assms by (simp add: raises_seq)

lemma raises_if [raises_intros]:
  assumes "c \<Longrightarrow> raises cs a" and "\<not> c \<Longrightarrow> raises cs b"
  shows "raises cs (if c then a else b)"
  using assms by simp

lemma raises_case_prod [raises_intros]:
  assumes "\<And>a b. raises cs (f a b)"
  shows "raises cs (case p of (a, b) \<Rightarrow> f a b)"
  using assms by (cases p) simp

lemma raises_case_option [raises_intros]:
  assumes "raises cs a" and "\<And>x. raises cs (f x)"
  shows "raises cs (case r of None \<Rightarrow> a | Some x \<Rightarrow> f x)"
  using assms by (cases r) simp_all

lemma raises_case_list [raises_intros]:
  assumes "raises cs a" and "\<And>x xs. raises cs (f x xs)"
  shows "raises cs (case r of [] \<Rightarrow> a | x # xs \<Rightarrow> f x xs)"
  using assms by (cases r) simp_all

lemma raises_emit [raises_intros]: "raises cs (emit e)"
  by (simp add: raises_def emit_def)

lemma raises_print [raises_intros]: "raises cs (print s)"
  by (simp add: print_def raises_emit)

lemma raises_print_with [raises_intros]: "raises cs (\<lambda>w. print (f w) w)"
  by (simp add: raises_def print_def emit_def)

lemma raises_print_cyan [raises_intros]: "raises cs (print_cyan s)"
  by (simp add: print_cyan_def raises_print)

lemma raises_print_green [raises_intros]: "raises cs (print_green s)"
  by (simp add: print_green_def raises_print)

lemma raises_print_red [raises_intros]: "raises cs (print_red s)"
  by (simp add: print_red_def raises_print)

lemma raises_print_yellow [raises_intros]: "raises cs (print_yellow s)"
  by (simp add: print_yellow_def raises_print)

lemma raises_read_input_registers [raises_intros]: "raises cs (read_input_registers mc a n)"
  by (simp add: raises_def read_input_registers_def Let_def)

lemma raises_read_holding_registers [raises_intros]: "raises cs (read_holding_registers mc a n)"
  by (simp add: raises_def read_holding_registers_def Let_def)

lemma raises_sleep [raises_intros]: "raises cs (sleep s)"
  by (simp add: raises_def sleep_def)

lemma raises_write_single_register [raises_intros]: "raises cs (write_single_register mc a v)"
  unfolding write_single_register_def by (intro raises_intros)

lemma raises_input_line [raises_intros]: "EOF_Error \<in> set cs \<Longrightarrow> raises cs input_line"
  by (rule raisesI) (auto simp: input_line_def split: list.splits)

text \<open>The three \<^verbatim>\<open>except\<close> clauses of the script.\<close>

lemma caught_class:
  "is_HighElectrolyteLevelException e \<longleftrightarrow> class_of e = HighLevel"
  "is_WaterPipeException e \<longleftrightarrow> class_of e = WaterPipe"
  "is_Exception e \<longleftrightarrow> class_of e \<noteq> System_Exit"
  by (cases e; simp)+

lemma raises_try_except:
  assumes "raises bs body" and "\<And>e. raises cs (handler e)"
    and "\<And>e. class_of e \<in> set bs \<Longrightarrow> \<not> caught e \<Longrightarrow> class_of e \<in> set cs"
  shows "raises cs (try_except body caught handler)"
proof (rule raisesI)
  fix w e w'
  assume run: "try_except body caught handler w = (Inl e, w')"
  obtain r w1 where m: "body w = (r, w1)" by (cases "body w")
  show "class_of e \<in> set cs"
  proof (cases r)
    case (Inr x)
    with m run show ?thesis by (simp add: try_except_def)
  next
    case (Inl x)
    show ?thesis
    proof (cases "caught x")
      case True
      with Inl m run have "handler x w1 = (Inl e, w')" by (simp add: try_except_def)
      then show ?thesis by (rule raisesD [OF assms(2)])
    next
      case False
      with Inl m run have "x = e" by (simp add: try_except_def)
      with Inl m have "body w = (Inl e, w1)" by simp
      then have "class_of e \<in> set bs" by (rule raisesD [OF assms(1)])
      with False \<open>x = e\<close> show ?thesis using assms(3) by blast
    qed
  qed
qed

lemma raises_try_except_else:
  assumes "raises bs body" and "\<And>e. raises cs (handler e)" and "raises cs orelse"
    and "\<And>e. class_of e \<in> set bs \<Longrightarrow> \<not> caught e \<Longrightarrow> class_of e \<in> set cs"
  shows "raises cs (try_except_else body caught handler orelse)"
proof (rule raisesI)
  fix w e w'
  assume run: "try_except_else body caught handler orelse w = (Inl e, w')"
  obtain r w1 where m: "body w = (r, w1)" by (cases "body w")
  show "class_of e \<in> set cs"
  proof (cases r)
    case (Inr x)
    with m run have "orelse w1 = (Inl e, w')" by (simp add: try_except_else_def)
    then show ?thesis by (rule raisesD [OF assms(3)])
  next
    case (Inl x)
    show ?thesis
    proof (cases "caught x")
      case True
      with Inl m run have "handler x w1 = (Inl e, w')" by (simp add: try_except_else_def)
      then show ?thesis by (rule raisesD [OF assms(2)])
    next
      case False
      with Inl m run have "x = e" by (simp add: try_except_else_def)
      with Inl m have "body w = (Inl e, w1)" by simp
      then have "class_of e \<in> set bs" by (rule raisesD [OF assms(1)])
      with False \<open>x = e\<close> show ?thesis using assms(4) by blast
    qed
  qed
qed

lemma raises_try_finally [raises_intros]:
  assumes "raises cs body" and "raises cs final"
  shows "raises cs (try_finally body final)"
proof (rule raisesI)
  fix w e w'
  assume run: "try_finally body final w = (Inl e, w')"
  obtain r w1 where m: "body w = (r, w1)" by (cases "body w")
  obtain r2 w2 where f: "final w1 = (r2, w2)" by (cases "final w1")
  show "class_of e \<in> set cs"
  proof (cases r2)
    case (Inl x)
    with m f run have "final w1 = (Inl e, w2)" by (simp add: try_finally_def)
    then show ?thesis by (rule raisesD [OF assms(2)])
  next
    case (Inr u)
    with m f run have "body w = (Inl e, w1)" by (simp add: try_finally_def)
    then show ?thesis by (rule raisesD [OF assms(1)])
  qed
qed

lemma raises_subscript0 [raises_intros]:
  assumes "set [Type_Error, Index_Error] \<subseteq> set cs"
  shows "raises cs (subscript0 r)"
  unfolding subscript0_def
  by (intro raises_intros ) (use assms in \<open>auto \<close>)

lemma raises_subscript0_list [raises_intros]:
  assumes "set [Index_Error] \<subseteq> set cs"
  shows "raises cs (subscript0_list xs)"
  unfolding subscript0_list_def
  by (intro raises_intros ) (use assms in \<open>auto \<close>)

lemma raises_word_list_to_long [raises_intros]:
  assumes "set [Type_Error] \<subseteq> set cs"
  shows "raises cs (word_list_to_long r)"
  unfolding word_list_to_long_def
  by (intro raises_intros ) (use assms in \<open>auto \<close>)

lemma raises_read_switch [raises_intros]:
  assumes "set [Type_Error, Index_Error] \<subseteq> set cs"
  shows "raises cs (read_switch mc reg)"
  unfolding read_switch_def
  by (intro raises_intros ) (use assms in \<open>auto \<close>)

lemma raises_read_switches [raises_intros]:
  assumes "set [Type_Error, Index_Error] \<subseteq> set cs"
  shows "raises cs (read_switches mc)"
  unfolding read_switches_def low_level_switch_def medium_level_switch_def high_level_switch_def very_high_level_switch_def
  by (intro raises_intros ) (use assms in \<open>auto \<close>)

lemma raises_level_of_switches [raises_intros]:
  assumes "set [Maintenance, Value_Error] \<subseteq> set cs"
  shows "raises cs (io_lift (level_of_switches switches))"
proof (rule raisesI)
  fix w e w'
  assume "io_lift (level_of_switches switches) w = (Inl e, w')"
  then have "level_of_switches switches = Inl e" by (simp add: io_lift_def)
  then have "class_of e = Maintenance \<or> class_of e = Value_Error"
    by (auto simp: level_of_switches_def ElectrolyteLevel_call_def Let_def
             split: sum.splits if_splits)
  with assms show "class_of e \<in> set cs" by auto
qed

lemma raises_electrolyte_level [raises_intros]:
  assumes "set [Type_Error, Index_Error, Maintenance, Value_Error] \<subseteq> set cs"
  shows "raises cs (electrolyte_level mc logging)"
  unfolding electrolyte_level_def
  by (intro raises_intros ) (use assms in \<open>auto \<close>)

lemma raises_decode_events [raises_intros]:
  assumes "set [Type_Error, Index_Error] \<subseteq> set cs"
  shows "raises cs (decode_events mc register event_type)"
  unfolding decode_events_def
  by (intro raises_intros ) (use assms in \<open>auto \<close>)

lemma raises_decode_warnings [raises_intros]:
  assumes "set [Type_Error, Index_Error] \<subseteq> set cs"
  shows "raises cs (decode_warnings mc)"
  unfolding decode_warnings_def
  by (intro raises_intros ) (use assms in \<open>auto \<close>)

lemma raises_decode_errors [raises_intros]:
  assumes "set [Type_Error, Index_Error] \<subseteq> set cs"
  shows "raises cs (decode_errors mc)"
  unfolding decode_errors_def
  by (intro raises_intros ) (use assms in \<open>auto \<close>)

lemma raises_check_refilling_warnings [raises_intros]:
  assumes "set [Type_Error, Index_Error, Maintenance] \<subseteq> set cs"
  shows "raises cs (check_refilling_warnings mc)"
  unfolding check_refilling_warnings_def
  by (intro raises_intros ) (use assms in \<open>auto \<close>)

lemma raises_actual_state [raises_intros]:
  assumes "set [Type_Error, Index_Error] \<subseteq> set cs"
  shows "raises cs (actual_state mc)"
  unfolding actual_state_def
  by (intro raises_intros ) (use assms in \<open>auto \<close>)

lemma raises_actual_refilling_state [raises_intros]:
  assumes "set [Type_Error, Index_Error] \<subseteq> set cs"
  shows "raises cs (actual_refilling_state mc)"
  unfolding actual_refilling_state_def
  by (intro raises_intros ) (use assms in \<open>auto \<close>)

lemma raises_actual_water_inlet_pressure [raises_intros]:
  assumes "set [Type_Error, Index_Error] \<subseteq> set cs"
  shows "raises cs (actual_water_inlet_pressure mc)"
  unfolding actual_water_inlet_pressure_def
  by (intro raises_intros ) (use assms in \<open>auto \<close>)

lemma raises_actual_refilling_mixing_time [raises_intros]:
  assumes "set [Type_Error, Index_Error] \<subseteq> set cs"
  shows "raises cs (actual_refilling_mixing_time mc)"
  unfolding actual_refilling_mixing_time_def
  by (intro raises_intros ) (use assms in \<open>auto \<close>)

lemma raises_actual_refilling_min_water_pressure [raises_intros]:
  assumes "set [Type_Error, Index_Error] \<subseteq> set cs"
  shows "raises cs (actual_refilling_min_water_pressure mc)"
  unfolding actual_refilling_min_water_pressure_def
  by (intro raises_intros ) (use assms in \<open>auto \<close>)

lemma raises_actual_refilling_max_water_pressure [raises_intros]:
  assumes "set [Type_Error, Index_Error] \<subseteq> set cs"
  shows "raises cs (actual_refilling_max_water_pressure mc)"
  unfolding actual_refilling_max_water_pressure_def
  by (intro raises_intros ) (use assms in \<open>auto \<close>)

lemma raises_toggle_maintenance [raises_intros]:
  "raises cs (toggle_maintenance mc enable)"
  unfolding toggle_maintenance_def
  by (intro raises_intros )

lemma raises_toggle_flushing [raises_intros]:
  "raises cs (toggle_flushing mc enable)"
  unfolding toggle_flushing_def
  by (intro raises_intros )

lemma raises_flushing_on [raises_intros]:
  "raises cs (flushing_on mc)"
  unfolding flushing_on_def
  by (intro raises_intros )

lemma raises_wait_confirmation_loop_aux:
  assumes "EOF_Error \<in> set cs"
  shows "wait_confirmation_loop w = (Inl e, w') \<Longrightarrow> class_of e \<in> set cs"
proof (induction w rule: wait_confirmation_loop.induct)
  case (1 w)
  show ?case
  proof (cases "stdin w")
    case Nil
    with "1.prems" have "e = EOFError ''EOF when reading a line''"
      by (subst (asm) wait_confirmation_loop.simps) (simp add: input_line_def)
    with assms show ?thesis by simp
  next
    case (Cons line rest)
    let ?w1 = "w\<lparr>stdin := rest, trace := trace w @ [Input line]\<rparr>"
    have inp: "input_line w = (Inr line, ?w1)" using Cons by (simp add: input_line_def)
    show ?thesis
    proof (cases "upper line \<noteq> INPUT_CONFIRMATION")
      case False
      with inp "1.prems" show ?thesis
        by (subst (asm) wait_confirmation_loop.simps) simp
    next
      case True
      with inp "1.prems"
      have "wait_confirmation_loop (snd (print_yellow ''Wrong confirmation'' ?w1)) = (Inl e, w')"
        by (subst (asm) wait_confirmation_loop.simps) simp
      then show ?thesis by (rule "1.IH" [OF inp [symmetric] refl True])
    qed
  qed
qed

lemma raises_wait_confirmation_loop [raises_intros]:
  "EOF_Error \<in> set cs \<Longrightarrow> raises cs wait_confirmation_loop"
  by (rule raisesI) (rule raises_wait_confirmation_loop_aux)

lemma raises_wait_confirmation [raises_intros]:
  assumes "set [EOF_Error] \<subseteq> set cs"
  shows "raises cs (wait_confirmation prompt)"
  unfolding wait_confirmation_def
  by (intro raises_intros ) (use assms in \<open>auto \<close>)

lemma raises_maintenance_on [raises_intros]:
  assumes "set [Type_Error, Index_Error, Maintenance] \<subseteq> set cs"
  shows "raises cs (maintenance_on mc initial_state)"
  unfolding maintenance_on_def
  by (intro raises_intros ) (use assms in \<open>auto \<close>)

lemma raises_maintenance_off [raises_intros]:
  assumes "set [Type_Error, Index_Error, Maintenance] \<subseteq> set cs"
  shows "raises cs (maintenance_off mc)"
  unfolding maintenance_off_def
  by (intro raises_intros ) (use assms in \<open>auto \<close>)

lemma raises_check_refilling_state [raises_intros]:
  assumes "set [Type_Error, Index_Error, Maintenance] \<subseteq> set cs"
  shows "raises cs (check_refilling_state mc expected)"
  unfolding check_refilling_state_def
  by (intro raises_intros ) (use assms in \<open>auto \<close>)

lemma raises_wait_electrolyte_level_loop_aux:
  assumes "set [Type_Error, Index_Error, Maintenance, Value_Error] \<subseteq> set cs"
    and "refilling \<Longrightarrow> HighLevel \<in> set cs"
  shows "wait_electrolyte_level_loop mc expected_level timeout refilling wait_until w = (Inl e, w')
         \<Longrightarrow> class_of e \<in> set cs"
  using assms(2)
proof (induction mc expected_level timeout refilling wait_until w
       rule: wait_electrolyte_level_loop.induct)
  case (1 mc expected_level timeout refilling wait_until w)
  note run = "1.prems"(1)
  obtain r w1 where obs: "electrolyte_level mc True w = (r, w1)"
    by (cases "electrolyte_level mc True w")
  show ?case
  proof (cases "clock w < wait_until")
    case False
    with run have "class_of e = Maintenance"
      by (subst (asm) wait_electrolyte_level_loop.simps) auto
    with assms(1) show ?thesis by simp
  next
    case True
    show ?thesis
    proof (cases r)
      case (Inl x)
      with True obs run have "electrolyte_level mc True w = (Inl e, w1)"
        by (subst (asm) wait_electrolyte_level_loop.simps) simp
      then show ?thesis
        by (rule raisesD [OF raises_electrolyte_level [OF assms(1)]])
    next
      case (Inr level)
      show ?thesis
      proof (cases "level = expected_level")
        case True
        with \<open>clock w < wait_until\<close> obs Inr run show ?thesis
          by (subst (asm) wait_electrolyte_level_loop.simps) simp
      next
        case False
        show ?thesis
        proof (cases "refilling \<and> level_value expected_level < level_value level")
          case True
          with \<open>clock w < wait_until\<close> obs Inr False run have "class_of e = HighLevel"
            by (subst (asm) wait_electrolyte_level_loop.simps) auto
          with True "1.prems"(2) show ?thesis by simp
        next
          case nover: False
          with \<open>clock w < wait_until\<close> obs Inr False run
          have "wait_electrolyte_level_loop mc expected_level timeout refilling wait_until
                  (snd (sleep ELECTROLYTE_PRESENCE_CHECK_TIMEOUT w1)) = (Inl e, w')"
            by (subst (asm) wait_electrolyte_level_loop.simps) auto
          then show ?thesis
            using "1.IH" [OF \<open>clock w < wait_until\<close> obs [symmetric] Inr False] nover "1.prems"(2)
            by blast
        qed
      qed
    qed
  qed
qed

lemma raises_wait_electrolyte_level [raises_intros]:
  assumes "set [Type_Error, Index_Error, Maintenance, Value_Error] \<subseteq> set cs"
    and "refilling \<Longrightarrow> HighLevel \<in> set cs"
  shows "raises cs (wait_electrolyte_level mc expected_level timeout refilling)"
  unfolding wait_electrolyte_level_def
  by (rule raisesI) (rule raises_wait_electrolyte_level_loop_aux [OF assms])

lemma raises_wait_refilling_state_loop_aux:
  assumes "set [Type_Error, Index_Error, Maintenance] \<subseteq> set cs"
  shows "wait_refilling_state_loop mc expected_state timeout wait_until w = (Inl e, w')
         \<Longrightarrow> class_of e \<in> set cs"
proof (induction mc expected_state timeout wait_until w rule: wait_refilling_state_loop.induct)
  case (1 mc expected_state timeout wait_until w)
  note run = "1.prems"
  obtain r w1 where obs: "actual_refilling_state mc w = (r, w1)"
    by (cases "actual_refilling_state mc w")
  show ?case
  proof (cases "clock w < wait_until")
    case False
    with run have "class_of e = Maintenance"
      by (subst (asm) wait_refilling_state_loop.simps) auto
    with assms show ?thesis by simp
  next
    case True
    show ?thesis
    proof (cases r)
      case (Inl x)
      with True obs run have "actual_refilling_state mc w = (Inl e, w1)"
        by (subst (asm) wait_refilling_state_loop.simps) simp
      moreover have "raises cs (actual_refilling_state mc)"
        by (rule raises_actual_refilling_state) (use assms in auto)
      ultimately show ?thesis by (rule raisesD [rotated])
    next
      case (Inr state)
      show ?thesis
      proof (cases "state = expected_state")
        case True
        with \<open>clock w < wait_until\<close> obs Inr run show ?thesis
          by (subst (asm) wait_refilling_state_loop.simps) simp
      next
        case False
        with \<open>clock w < wait_until\<close> obs Inr run
        have "wait_refilling_state_loop mc expected_state timeout wait_until
                (snd (sleep REFILLING_STATE_CHECK_TIMEOUT w1)) = (Inl e, w')"
          by (subst (asm) wait_refilling_state_loop.simps) auto
        then show ?thesis
          by (rule "1.IH" [OF \<open>clock w < wait_until\<close> obs [symmetric] Inr False])
      qed
    qed
  qed
qed

lemma raises_wait_refilling_state [raises_intros]:
  assumes "set [Type_Error, Index_Error, Maintenance] \<subseteq> set cs"
  shows "raises cs (wait_refilling_state mc expected_state timeout)"
  unfolding wait_refilling_state_def
  by (rule raisesI) (rule raises_wait_refilling_state_loop_aux [OF assms])

lemma raises_try_except_High [raises_intros]:
  assumes "raises (HighLevel # cs) body" and "\<And>e. raises cs (handler e)"
  shows "raises cs (try_except body is_HighElectrolyteLevelException handler)"
  by (rule raises_try_except [OF assms]) (auto simp: caught_class)

lemma raises_try_except_else_High [raises_intros]:
  assumes "raises (HighLevel # cs) body" and "\<And>e. raises cs (handler e)"
    and "raises cs orelse"
  shows "raises cs (try_except_else body is_HighElectrolyteLevelException handler orelse)"
  by (rule raises_try_except_else [OF assms]) (auto simp: caught_class)

lemma raises_try_except_else_WaterPipe [raises_intros]:
  assumes "raises (WaterPipe # cs) body" and "\<And>e. raises cs (handler e)"
    and "raises cs orelse"
  shows "raises cs (try_except_else body is_WaterPipeException handler orelse)"
  by (rule raises_try_except_else [OF assms]) (auto simp: caught_class)

lemma raises_handle_very_high_electrolyte_level [raises_intros]:
  assumes "set [Type_Error, Index_Error, Maintenance, Value_Error, EOF_Error] \<subseteq> set cs"
  shows "raises cs (handle_very_high_electrolyte_level mc el_21)"
  unfolding handle_very_high_electrolyte_level_def
  by (intro raises_intros ) (use assms in \<open>auto \<close>)

lemma raises_perform_draining [raises_intros]:
  assumes "set [Type_Error, Index_Error, Maintenance, Value_Error, EOF_Error] \<subseteq> set cs"
  shows "raises cs (perform_draining mc)"
  unfolding perform_draining_def
  by (intro raises_intros ) (use assms in \<open>auto \<close>)

lemma raises_water_pipe_round [raises_intros]:
  assumes "set [Type_Error, Index_Error, Maintenance, Value_Error, EOF_Error] \<subseteq> set cs"
  shows "raises cs (water_pipe_round mc expect_no_electrolyte min_pressure max_pressure pressure_ok electrolyte_ok)"
  unfolding water_pipe_round_def
  by (intro raises_intros ) (use assms in \<open>auto \<close>)

lemma raises_water_pipe_loop_aux:
  assumes "set [Type_Error, Index_Error, Maintenance, Value_Error, EOF_Error, WaterPipe]
           \<subseteq> set cs"
  shows "water_pipe_loop mc expect_no_electrolyte attempts min_pressure max_pressure
           water_pipe_connect_attempts pressure_ok electrolyte_ok w = (Inl x, w')
         \<Longrightarrow> class_of x \<in> set cs"
proof (induction mc expect_no_electrolyte attempts min_pressure max_pressure
         water_pipe_connect_attempts pressure_ok electrolyte_ok w
       rule: water_pipe_loop.induct)
  case (1 mc expect_no_electrolyte attempts min_pressure max_pressure
          water_pipe_connect_attempts pressure_ok electrolyte_ok w)
  note run = "1.prems"
  have rr: "raises cs (water_pipe_round mc expect_no_electrolyte min_pressure max_pressure
                         pressure_ok electrolyte_ok)"
    by (rule raises_water_pipe_round) (use assms in auto)
  have rc: "raises cs (wait_confirmation WATER_PIPE_PROMPT)"
    by (rule raises_wait_confirmation) (use assms in auto)
  obtain r w1 where rnd: "water_pipe_round mc expect_no_electrolyte min_pressure max_pressure
                            pressure_ok electrolyte_ok w = (r, w1)"
    by (cases "water_pipe_round mc expect_no_electrolyte min_pressure max_pressure
                 pressure_ok electrolyte_ok w")
  show ?case
  proof (cases "water_pipe_connect_attempts < attempts")
    case False
    with run have "class_of x = WaterPipe" by (subst (asm) water_pipe_loop.simps) auto
    with assms show ?thesis by simp
  next
    case True
    show ?thesis
    proof (cases r)
      case (Inl y)
      with True rnd run have "water_pipe_round mc expect_no_electrolyte min_pressure max_pressure
                                pressure_ok electrolyte_ok w = (Inl x, w1)"
        by (subst (asm) water_pipe_loop.simps) simp
      then show ?thesis by (rule raisesD [OF rr])
    next
      case (Inr flags)
      obtain p e where flags: "flags = (p, e)" by (cases flags)
      show ?thesis
      proof (cases "p \<and> e")
        case True
        with \<open>water_pipe_connect_attempts < attempts\<close> rnd Inr flags run show ?thesis
          by (subst (asm) water_pipe_loop.simps) simp
      next
        case False
        obtain c w2 where conf: "wait_confirmation WATER_PIPE_PROMPT w1 = (c, w2)"
          by (cases "wait_confirmation WATER_PIPE_PROMPT w1")
        show ?thesis
        proof (cases c)
          case (Inl y)
          with \<open>water_pipe_connect_attempts < attempts\<close> rnd \<open>r = Inr flags\<close> flags False conf run
          have "wait_confirmation WATER_PIPE_PROMPT w1 = (Inl x, w2)"
            by (subst (asm) water_pipe_loop.simps) auto
          then show ?thesis by (rule raisesD [OF rc])
        next
          case (Inr u)
          with \<open>water_pipe_connect_attempts < attempts\<close> rnd \<open>r = Inr flags\<close> flags False conf run
          have "water_pipe_loop mc expect_no_electrolyte attempts min_pressure max_pressure
                  (water_pipe_connect_attempts + 1) p e w2 = (Inl x, w')"
            by (subst (asm) water_pipe_loop.simps) auto
          then show ?thesis
            by (rule "1.IH" [OF \<open>water_pipe_connect_attempts < attempts\<close> rnd [symmetric]
                               \<open>r = Inr flags\<close> flags [symmetric] False conf [symmetric] Inr])
        qed
      qed
    qed
  qed
qed

lemma raises_water_pipe_loop [raises_intros]:
  assumes "set [Type_Error, Index_Error, Maintenance, Value_Error, EOF_Error, WaterPipe]
           \<subseteq> set cs"
  shows "raises cs (water_pipe_loop mc expect_no_electrolyte attempts min_pressure max_pressure
                      water_pipe_connect_attempts pressure_ok electrolyte_ok)"
  by (rule raisesI) (rule raises_water_pipe_loop_aux [OF assms])

lemma raises_check_water_pipe_connection [raises_intros]:
  assumes "set [Type_Error, Index_Error, Maintenance, Value_Error, EOF_Error, WaterPipe] \<subseteq> set cs"
  shows "raises cs (check_water_pipe_connection mc expect_no_electrolyte attempts)"
  unfolding check_water_pipe_connection_def
  by (intro raises_intros ) (use assms in \<open>auto \<close>)

lemma raises_wait_mixing [raises_intros]:
  assumes "set [Type_Error, Index_Error, Maintenance] \<subseteq> set cs"
  shows "raises cs (wait_mixing mc expected_state)"
  unfolding wait_mixing_def
  by (intro raises_intros ) (use assms in \<open>auto \<close>)

lemma raises_perform_flushing [raises_intros]:
  assumes "set [Type_Error, Index_Error, Maintenance, Value_Error, EOF_Error, WaterPipe, HighLevel] \<subseteq> set cs"
  shows "raises cs (perform_flushing mc)"
  unfolding perform_flushing_def
  by (intro raises_intros ) (use assms in \<open>auto \<close>)

lemma raises_overfill_warning [raises_intros]:
  "raises cs (overfill_warning el_21)"
  unfolding overfill_warning_def
  by (intro raises_intros )

lemma raises_perform_refilling [raises_intros]:
  assumes "set [Type_Error, Index_Error, Maintenance, Value_Error, EOF_Error] \<subseteq> set cs"
  shows "raises cs (perform_refilling mc el_21)"
  unfolding perform_refilling_def
  by (intro raises_intros ) (use assms in \<open>auto \<close>)

lemma raises_finish_refilling [raises_intros]:
  assumes "set [Type_Error, Index_Error, Maintenance, Value_Error, HighLevel] \<subseteq> set cs"
  shows "raises cs (finish_refilling mc)"
  unfolding finish_refilling_def
  by (intro raises_intros ) (use assms in \<open>auto \<close>)

lemma raises_run_maintenance_21 [raises_intros]:
  assumes "set [Type_Error, Index_Error, Maintenance, Value_Error, EOF_Error] \<subseteq> set cs"
  shows "raises cs (run_maintenance_21 mc initial_state)"
  unfolding run_maintenance_21_def
  by (intro raises_intros ) (use assms in \<open>auto simp: unexpected_refilling_state_def\<close>)

lemma raises_run_maintenance_4x_rest_without_flushing:
  assumes "set [Type_Error, Index_Error, Maintenance, Value_Error, EOF_Error, HighLevel] \<subseteq> set cs"
  shows "raises cs (run_maintenance_4x_rest mc False)"
  unfolding run_maintenance_4x_rest_def
  by (intro raises_intros ) (use assms in \<open>auto \<close>)

lemma raises_run_maintenance_4x_rest:
  assumes "set [Type_Error, Index_Error, Maintenance, Value_Error, EOF_Error, WaterPipe, HighLevel] \<subseteq> set cs"
  shows "raises cs (run_maintenance_4x_rest mc flushing_required)"
  unfolding run_maintenance_4x_rest_def
  by (intro raises_intros ) (use assms in \<open>auto \<close>)

lemma raises_run_maintenance_4x [raises_intros]:
  assumes "set [Type_Error, Index_Error, Maintenance, Value_Error, EOF_Error, WaterPipe, HighLevel] \<subseteq> set cs"
  shows "raises cs (run_maintenance_4x mc initial_state)"
  unfolding run_maintenance_4x_def
  by (intro raises_intros raises_run_maintenance_4x_rest) (use assms in \<open>auto simp: unexpected_refilling_state_def\<close>)

end
